theory Spec2Isabelle
  imports Complex_Main
begin

section \<open>Data model of the reinforcement learning engine\<close>

text \<open>
  The embedding follows \<^verbatim>\<open>reinforcement_learning.h\<close> and
  \<^verbatim>\<open>reinforcement_learning.cpp\<close>. Conventions:
  \<^item> the exploration rate, its decay factor and its floor are values of the type \<open>double\<close>
    below, which has the two infinities and NaN beside the finite values, because a caller
    can hand any \<^verbatim>\<open>double\<close> to \<^verbatim>\<open>setExplorationRate\<close>; a finite value is a \<^typ>\<open>real\<close>, so
    rounding and overflow are not modelled; every other \<^verbatim>\<open>double\<close> of the program (weights,
    features, rewards, \<^verbatim>\<open>gamma_\<close>, learning rates) is a \<^typ>\<open>real\<close>;
  \<^item> a \<^verbatim>\<open>size_t\<close> is a \<^typ>\<open>nat\<close>: \<^verbatim>\<open>steps_since_update_\<close> is reset at
    \<^verbatim>\<open>update_frequency_\<close>, the other two counters only count calls;
  \<^item> the trailing underscore of private members is dropped (\<^verbatim>\<open>epsilon_\<close> is \<open>epsilon\<close>);
  \<^item> a thrown exception is a value \<open>Inl e\<close>; a read the C++ standard leaves undefined
    (dereferencing an end iterator or a null pointer, indexing an empty vector, an
    out-of-range float-to-integer conversion) is \<open>Inl undefined_behaviour\<close>;
  \<^item> every draw from a random generator is an explicit argument of the model, so each
    statement holds for all draws;
  \<^item> the mutex only serialises calls; each operation is modelled as one atomic step;
  \<^item> console output is not modelled.
\<close>

datatype error = invalid_argument string | undefined_behaviour

text \<open>
  A \<^verbatim>\<open>double\<close> with its special values. \<open>dless\<close> is \<^verbatim>\<open>operator<\<close> and \<open>dmult\<close> is
  \<^verbatim>\<open>operator*\<close> of IEEE 754: a comparison with NaN is false, a product with NaN is NaN,
  and zero times an infinity is NaN.
\<close>

datatype double = Finite real | PlusInfinity | MinusInfinity | NaN

fun dless :: "double \<Rightarrow> double \<Rightarrow> bool" where
  "dless NaN y = False"
| "dless x NaN = False"
| "dless (Finite a) (Finite b) = (a < b)"
| "dless (Finite a) PlusInfinity = True"
| "dless (Finite a) MinusInfinity = False"
| "dless PlusInfinity y = False"
| "dless MinusInfinity MinusInfinity = False"
| "dless MinusInfinity y = True"

fun dmult :: "double \<Rightarrow> double \<Rightarrow> double" where
  "dmult NaN y = NaN"
| "dmult x NaN = NaN"
| "dmult (Finite a) (Finite b) = Finite (a * b)"
| "dmult (Finite a) PlusInfinity =
     (if 0 < a then PlusInfinity else if a < 0 then MinusInfinity else NaN)"
| "dmult (Finite a) MinusInfinity =
     (if 0 < a then MinusInfinity else if a < 0 then PlusInfinity else NaN)"
| "dmult PlusInfinity (Finite b) =
     (if 0 < b then PlusInfinity else if b < 0 then MinusInfinity else NaN)"
| "dmult MinusInfinity (Finite b) =
     (if 0 < b then MinusInfinity else if b < 0 then PlusInfinity else NaN)"
| "dmult PlusInfinity PlusInfinity = PlusInfinity"
| "dmult PlusInfinity MinusInfinity = MinusInfinity"
| "dmult MinusInfinity PlusInfinity = MinusInfinity"
| "dmult MinusInfinity MinusInfinity = PlusInfinity"

text \<open>A value of the closed interval from \<open>0\<close> to \<open>1\<close>; NaN and the infinities are not.\<close>

fun in_unit_interval :: "double \<Rightarrow> bool" where
  "in_unit_interval (Finite x) = (0 \<le> x \<and> x \<le> 1)"
| "in_unit_interval d = False"

record State =
  features :: "real list"
  state_id :: string
  reward :: real
  terminal :: bool

record Action =
  action_id :: string
  parameters :: "real list"
  expected_reward :: real

text \<open>\<^verbatim>\<open>done\<close> is a keyword of Isabelle, so the field is \<open>done_flag\<close>; the time stamp is
  the reading of the system clock, a natural number supplied by the caller of the model.\<close>

record Experience =
  state :: State
  action :: Action
  reward :: real
  next_state :: State
  done_flag :: bool
  timestamp :: nat

record QNetwork =
  weights :: "real list list"
  biases :: "real list"
  input_size :: nat
  hidden_size :: nat
  output_size :: nat
  learning_rate :: real

text \<open>The constructors \<^verbatim>\<open>State(feat, id)\<close> and \<^verbatim>\<open>Action(id, params)\<close>.\<close>

definition State_ctor :: "real list \<Rightarrow> string \<Rightarrow> State" where
  "State_ctor feat ident =
     \<lparr>features = feat, state_id = ident, reward = 0, terminal = False\<rparr>"

definition Action_ctor :: "string \<Rightarrow> real list \<Rightarrow> Action" where
  "Action_ctor ident params =
     \<lparr>action_id = ident, parameters = params, expected_reward = 0\<rparr>"

section \<open>QNetwork\<close>

text \<open>
  \<^verbatim>\<open>QNetwork::QNetwork\<close>. The numbers drawn from the two normal distributions \<^verbatim>\<open>dist\<close> and
  \<^verbatim>\<open>dist2\<close> are the parameters \<open>draw\<close> and \<open>draw2\<close>: \<open>draw i\<close> is the \<open>i\<close>-th number
  drawn for the first layer.
\<close>

definition QNetwork_ctor ::
  "nat \<Rightarrow> nat \<Rightarrow> nat \<Rightarrow> real \<Rightarrow> (nat \<Rightarrow> real) \<Rightarrow> (nat \<Rightarrow> real) \<Rightarrow> QNetwork" where
  "QNetwork_ctor input_sz hidden_sz output_sz lr draw draw2 =
     \<lparr>weights = [map draw [0..<input_sz * hidden_sz], map draw2 [0..<hidden_sz * output_sz]],
      biases = replicate (hidden_sz + output_sz) 0,
      input_size = input_sz,
      hidden_size = hidden_sz,
      output_size = output_sz,
      learning_rate = lr\<rparr>"

definition relu :: "real \<Rightarrow> real" where
  "relu x = max 0 x"

text \<open>
  \<^verbatim>\<open>QNetwork::forward\<close>. Each inner loop accumulates into a cell that starts at \<open>0\<close>, in
  index order: a \<open>foldl\<close>. The reads \<^verbatim>\<open>weights_[0][i * hidden_size_ + h]\<close>,
  \<^verbatim>\<open>weights_[1][h * output_size_ + o]\<close> and \<^verbatim>\<open>biases_[...]\<close> are in range for the sizes the
  constructor allocates (predicate \<open>well_formed\<close> below).
\<close>

definition forward :: "QNetwork \<Rightarrow> real list \<Rightarrow> error + real list" where
  "forward n input =
     (if length input \<noteq> input_size n then Inl (invalid_argument ''Input size mismatch'')
      else
        let hidden = map (\<lambda>h. relu (foldl (\<lambda>acc i. acc + input ! i * weights n ! 0 ! (i * hidden_size n + h))
                                      0 [0..<input_size n] + biases n ! h))
                         [0..<hidden_size n];
            output = map (\<lambda>oi. foldl (\<lambda>acc h. acc + hidden ! h * weights n ! 1 ! (h * output_size n + oi))
                                      0 [0..<hidden_size n] + biases n ! (hidden_size n + oi))
                         [0..<output_size n]
        in Inr output)"

definition predict :: "QNetwork \<Rightarrow> real list \<Rightarrow> error + real list" where
  "predict n st = forward n st"

text \<open>
  \<^verbatim>\<open>QNetwork::backward\<close>: only \<^verbatim>\<open>weights_[1]\<close> is updated. Reading \<^verbatim>\<open>target[i]\<close> beyond the
  end of \<open>target\<close> is undefined.
\<close>

definition backward :: "QNetwork \<Rightarrow> real list \<Rightarrow> real list \<Rightarrow> error + QNetwork" where
  "backward n input target =
     (case forward n input of
        Inl e \<Rightarrow> Inl e
      | Inr prediction \<Rightarrow>
          if length target < output_size n then Inl undefined_behaviour
          else
            let output_gradients =
                  map (\<lambda>i. 2 * (prediction ! i - target ! i) / real (output_size n))
                      [0..<output_size n]
            in Inr (n\<lparr>weights := (weights n)
                       [1 := map (\<lambda>i. weights n ! 1 ! i
                                        - learning_rate n * output_gradients ! (i mod output_size n))
                                 [0..<length (weights n ! 1)]]\<rparr>))"

text \<open>
  \<^verbatim>\<open>QNetwork::train\<close>: the mean squared error \<^verbatim>\<open>loss\<close> is computed and then dropped, so
  only its reads of \<^verbatim>\<open>target[i]\<close> remain in the model.
\<close>

definition train :: "QNetwork \<Rightarrow> real list \<Rightarrow> real list \<Rightarrow> error + QNetwork" where
  "train n st target =
     (case forward n st of
        Inl e \<Rightarrow> Inl e
      | Inr prediction \<Rightarrow>
          if length target < length prediction then Inl undefined_behaviour
          else backward n st target)"

text \<open>The shape the constructor gives a network.\<close>

definition well_formed :: "QNetwork \<Rightarrow> bool" where
  "well_formed n \<longleftrightarrow>
     length (weights n) = 2 \<and>
     length (weights n ! 0) = input_size n * hidden_size n \<and>
     length (weights n ! 1) = hidden_size n * output_size n \<and>
     length (biases n) = hidden_size n + output_size n"

section \<open>Library functions the engine calls\<close>

text \<open>
  \<^verbatim>\<open>std::to_string\<close> on a non-negative integer: its decimal digits.
\<close>

function to_string :: "nat \<Rightarrow> string" where
  "to_string n =
     (if n < 10 then [''0123456789'' ! n]
      else to_string (n div 10) @ [''0123456789'' ! (n mod 10)])"
  by pat_completeness auto
termination
  by (relation "measure (\<lambda>n. n)") auto

declare to_string.simps [simp del]

text \<open>
  \<^verbatim>\<open>std::max_element\<close>, as the index of the iterator it returns: the first position that
  holds a largest element, and \<open>length xs\<close> (the end iterator) for an empty range.
\<close>

definition max_element :: "real list \<Rightarrow> nat" where
  "max_element xs =
     (if xs = [] then length xs
      else fold (\<lambda>i largest. if xs ! largest < xs ! i then i else largest) [1..<length xs] 0)"

text \<open>
  \<^verbatim>\<open>std::uniform_int_distribution(lo, hi)\<close> applied to a generator: the generator's
  output is the argument \<open>raw\<close>, and the distribution maps it onto \<open>lo..hi\<close>. Every value
  of \<open>lo..hi\<close> is produced by some \<open>raw\<close> and no other value is produced.
\<close>

definition uniform_int_distribution :: "nat \<Rightarrow> nat \<Rightarrow> nat \<Rightarrow> nat" where
  "uniform_int_distribution lo hi raw = lo + raw mod (hi - lo + 1)"

text \<open>
  \<^verbatim>\<open>static_cast<size_t>\<close> of a \<^verbatim>\<open>double\<close> truncates towards zero and is undefined when
  the truncated value is not a \<^verbatim>\<open>size_t\<close> (taken as 64 bits wide).
\<close>

definition to_size_t :: "real \<Rightarrow> error + nat" where
  "to_size_t x =
     (if - 1 < x \<and> x < 2 ^ 64 then Inr (nat \<lfloor>x\<rfloor>) else Inl undefined_behaviour)"

section \<open>ReinforcementLearningEngine\<close>

text \<open>A \<^verbatim>\<open>std::unique_ptr<QNetwork>\<close> is an option: \<open>None\<close> after \<^verbatim>\<open>reset()\<close>.\<close>

record ReinforcementLearningEngine =
  q_network :: "QNetwork option"
  target_network :: "QNetwork option"
  replay_buffer :: "Experience list"
  buffer_capacity :: nat
  batch_size :: nat
  epsilon :: double
  epsilon_decay :: double
  epsilon_min :: double
  gamma :: real
  learning_rate :: real
  update_frequency :: nat
  steps_since_update :: nat
  total_steps :: nat
  total_episodes :: nat

text \<open>
  The constructor. \<open>qd\<close>, \<open>qd2\<close> are the numbers drawn for the weights of the live
  network, \<open>td\<close>, \<open>td2\<close> those for the target network.
\<close>

definition ReinforcementLearningEngine_ctor ::
  "nat \<Rightarrow> nat \<Rightarrow> nat \<Rightarrow> real \<Rightarrow> (nat \<Rightarrow> real) \<Rightarrow> (nat \<Rightarrow> real) \<Rightarrow> (nat \<Rightarrow> real) \<Rightarrow> (nat \<Rightarrow> real)
     \<Rightarrow> ReinforcementLearningEngine" where
  "ReinforcementLearningEngine_ctor state_size action_size hidden_sz lr qd qd2 td td2 =
     \<lparr>q_network = Some (QNetwork_ctor state_size hidden_sz action_size lr qd qd2),
      target_network = Some (QNetwork_ctor state_size hidden_sz action_size lr td td2),
      replay_buffer = [],
      buffer_capacity = 10000,
      batch_size = 32,
      epsilon = Finite 1.0,
      epsilon_decay = Finite 0.995,
      epsilon_min = Finite 0.01,
      gamma = 0.99,
      learning_rate = lr,
      update_frequency = 100,
      steps_since_update = 0,
      total_steps = 0,
      total_episodes = 0\<rparr>"

definition initialize :: "ReinforcementLearningEngine \<Rightarrow> bool \<times> ReinforcementLearningEngine" where
  "initialize e =
     (if q_network e = None \<or> target_network e = None then (False, e)
      else (True, e\<lparr>replay_buffer := [], total_steps := 0, total_episodes := 0,
                    steps_since_update := 0\<rparr>))"

text \<open>\<open>raw\<close> is the output of the generator that \<^verbatim>\<open>action_dist(rng_)\<close> consumes.\<close>

definition selectRandomAction :: "nat \<Rightarrow> Action" where
  "selectRandomAction raw =
     (let action_idx = uniform_int_distribution 0 3 raw;
          params = [real action_idx]
      in Action_ctor (''action_'' @ to_string action_idx) params)"

text \<open>
  \<^verbatim>\<open>selectBestAction\<close>: \<^verbatim>\<open>*max_it\<close> dereferences the end iterator when the network has no
  output.
\<close>

definition selectBestAction :: "State \<Rightarrow> ReinforcementLearningEngine \<Rightarrow> error + Action" where
  "selectBestAction st e =
     (case q_network e of
        None \<Rightarrow> Inl undefined_behaviour
      | Some q \<Rightarrow>
          (case predict q (features st) of
             Inl err \<Rightarrow> Inl err
           | Inr q_values \<Rightarrow>
               let best_action_idx = max_element q_values;
                   params = [real best_action_idx];
                   a = Action_ctor (''action_'' @ to_string best_action_idx) params
               in if best_action_idx < length q_values
                  then Inr (a\<lparr>expected_reward := q_values ! best_action_idx\<rparr>)
                  else Inl undefined_behaviour))"

text \<open>
  \<^verbatim>\<open>getAction\<close>: \<open>u\<close> is the number \<^verbatim>\<open>dist(rng_)\<close> draws from \<open>[0, 1)\<close>, \<open>raw\<close> the generator
  output for the random action. The step counter is incremented before anything can throw.
\<close>

definition getAction ::
  "real \<Rightarrow> nat \<Rightarrow> State \<Rightarrow> ReinforcementLearningEngine
     \<Rightarrow> (error + Action) \<times> ReinforcementLearningEngine" where
  "getAction u raw st e =
     (let e1 = e\<lparr>total_steps := total_steps e + 1\<rparr>
      in if dless (Finite u) (epsilon e1) then (Inr (selectRandomAction raw), e1)
         else (selectBestAction st e1, e1))"

text \<open>
  \<^verbatim>\<open>storeExperience\<close>: \<open>ts\<close> is the clock reading. \<^verbatim>\<open>erase(begin())\<close> is \<open>tl\<close>; it is only
  reached on an empty buffer when \<open>buffer_capacity = 0\<close>, which the constructor excludes.
\<close>

definition storeExperience ::
  "State \<Rightarrow> Action \<Rightarrow> real \<Rightarrow> State \<Rightarrow> bool \<Rightarrow> nat \<Rightarrow> ReinforcementLearningEngine
     \<Rightarrow> ReinforcementLearningEngine" where
  "storeExperience st a r nst d ts e =
     (let experience = \<lparr>state = st, action = a, reward = r, next_state = nst,
                        done_flag = d, timestamp = ts\<rparr>;
          e1 = (if length (replay_buffer e) \<ge> buffer_capacity e
                then e\<lparr>replay_buffer := tl (replay_buffer e)\<rparr> else e)
      in e1\<lparr>replay_buffer := replay_buffer e1 @ [experience]\<rparr>)"

text \<open>
  \<^verbatim>\<open>sampleBatch\<close>: \<open>raws i\<close> is the generator output consumed by the \<open>i\<close>-th draw. It is
  called only with a non-empty buffer.
\<close>

definition sampleBatch :: "(nat \<Rightarrow> nat) \<Rightarrow> ReinforcementLearningEngine \<Rightarrow> nat list" where
  "sampleBatch raws e =
     map (\<lambda>i. uniform_int_distribution 0 (length (replay_buffer e) - 1) (raws i))
         [0..<batch_size e]"

text \<open>\<^verbatim>\<open>updateTargetNetwork\<close> prints a message and changes nothing.\<close>

definition updateTargetNetwork :: "ReinforcementLearningEngine \<Rightarrow> ReinforcementLearningEngine" where
  "updateTargetNetwork e = e"

text \<open>
  The body of the loop of \<^verbatim>\<open>trainOnBatch\<close> for one sampled index. Nothing is written
  before \<^verbatim>\<open>train\<close>, so a failure leaves the engine as it was.
\<close>

definition trainOnBatch_body ::
  "nat \<Rightarrow> ReinforcementLearningEngine \<Rightarrow> error + ReinforcementLearningEngine" where
  "trainOnBatch_body idx e =
     (if idx \<ge> length (replay_buffer e) then Inl undefined_behaviour
      else
        let experience = replay_buffer e ! idx in
        case (q_network e, target_network e) of
          (Some q, Some t) \<Rightarrow>
            (case predict q (features (state experience)) of
               Inl err \<Rightarrow> Inl err
             | Inr current_q_values \<Rightarrow>
                 (case predict t (features (next_state experience)) of
                    Inl err \<Rightarrow> Inl err
                  | Inr next_q_values \<Rightarrow>
                      if \<not> done_flag experience \<and> next_q_values = [] then Inl undefined_behaviour
                      else
                        let target_q =
                              (if \<not> done_flag experience
                               then Experience.reward experience
                                      + gamma e * next_q_values ! max_element next_q_values
                               else Experience.reward experience)
                        in if parameters (action experience) = [] then Inl undefined_behaviour
                           else
                             (case to_size_t (parameters (action experience) ! 0) of
                                Inl err \<Rightarrow> Inl err
                              | Inr action_idx \<Rightarrow>
                                  let current_q_values' =
                                        (if action_idx < length current_q_values
                                         then current_q_values[action_idx := target_q]
                                         else current_q_values)
                                  in (case train q (features (state experience)) current_q_values' of
                                        Inl err \<Rightarrow> Inl err
                                      | Inr q' \<Rightarrow> Inr (e\<lparr>q_network := Some q'\<rparr>)))))
        | _ \<Rightarrow> Inl undefined_behaviour)"

text \<open>
  The loop of \<^verbatim>\<open>trainOnBatch\<close> over the sampled indices. An exception leaves the loop
  with the live network as trained so far.
\<close>

fun trainOnBatch_loop ::
  "nat list \<Rightarrow> ReinforcementLearningEngine \<Rightarrow> (error + unit) \<times> ReinforcementLearningEngine" where
  "trainOnBatch_loop [] e = (Inr (), e)"
| "trainOnBatch_loop (idx # batch_indices) e =
     (case trainOnBatch_body idx e of
        Inl err \<Rightarrow> (Inl err, e)
      | Inr e' \<Rightarrow> trainOnBatch_loop batch_indices e')"

definition trainOnBatch ::
  "(nat \<Rightarrow> nat) \<Rightarrow> ReinforcementLearningEngine \<Rightarrow> (error + unit) \<times> ReinforcementLearningEngine" where
  "trainOnBatch raws e = trainOnBatch_loop (sampleBatch raws e) e"

definition learn ::
  "(nat \<Rightarrow> nat) \<Rightarrow> ReinforcementLearningEngine \<Rightarrow> (error + unit) \<times> ReinforcementLearningEngine" where
  "learn raws e =
     (if length (replay_buffer e) < batch_size e then (Inr (), e)
      else
        (case trainOnBatch raws e of
           (Inl err, e1) \<Rightarrow> (Inl err, e1)
         | (Inr _, e1) \<Rightarrow>
             let e2 = e1\<lparr>steps_since_update := steps_since_update e1 + 1\<rparr>;
                 e3 = (if steps_since_update e2 \<ge> update_frequency e2
                       then (updateTargetNetwork e2)\<lparr>steps_since_update := 0\<rparr>
                       else e2)
             in (Inr (), if dless (epsilon_min e3) (epsilon e3)
                         then e3\<lparr>epsilon := dmult (epsilon e3) (epsilon_decay e3)\<rparr>
                         else e3)))"

definition startEpisode :: "ReinforcementLearningEngine \<Rightarrow> ReinforcementLearningEngine" where
  "startEpisode e = e\<lparr>total_episodes := total_episodes e + 1\<rparr>"

definition endEpisode :: "real \<Rightarrow> ReinforcementLearningEngine \<Rightarrow> ReinforcementLearningEngine" where
  "endEpisode total_reward e = e"

definition getAverageReward :: "ReinforcementLearningEngine \<Rightarrow> real" where
  "getAverageReward e =
     (if replay_buffer e = [] then 0
      else foldl (\<lambda>total_reward experience. total_reward + Experience.reward experience)
                 0 (replay_buffer e)
           / real (length (replay_buffer e)))"

text \<open>
  \<^verbatim>\<open>std::clamp(v, lo, hi)\<close> is \<^verbatim>\<open>(v < lo) ? lo : (hi < v) ? hi : v\<close>. Both comparisons are
  false for NaN, which is therefore returned as it is.
\<close>

definition clamp :: "double \<Rightarrow> double \<Rightarrow> double \<Rightarrow> double" where
  "clamp v lo hi = (if dless v lo then lo else if dless hi v then hi else v)"

definition setExplorationRate ::
  "double \<Rightarrow> ReinforcementLearningEngine \<Rightarrow> ReinforcementLearningEngine" where
  "setExplorationRate eps e = e\<lparr>epsilon := clamp eps (Finite 0.0) (Finite 1.0)\<rparr>"

definition emergencyStop :: "ReinforcementLearningEngine \<Rightarrow> ReinforcementLearningEngine" where
  "emergencyStop e = e\<lparr>replay_buffer := [], epsilon := Finite 1.0\<rparr>"

definition resetLearning :: "ReinforcementLearningEngine \<Rightarrow> ReinforcementLearningEngine" where
  "resetLearning e =
     e\<lparr>replay_buffer := [], total_steps := 0, total_episodes := 0, steps_since_update := 0,
       epsilon := Finite 1.0\<rparr>"

definition shutdown :: "ReinforcementLearningEngine \<Rightarrow> ReinforcementLearningEngine" where
  "shutdown e = e\<lparr>replay_buffer := [], q_network := None, target_network := None\<rparr>"

section \<open>Sequences of public operations\<close>

text \<open>
  The public operations that are defined in \<^verbatim>\<open>reinforcement_learning.cpp\<close> and change the
  engine, each with its arguments and the random numbers it consumes. (The header also
  declares \<^verbatim>\<open>pauseLearning\<close>, \<^verbatim>\<open>resumeLearning\<close>, \<^verbatim>\<open>saveModel\<close> and \<^verbatim>\<open>loadModel\<close>; the
  repository does not define them.)
\<close>

datatype operation =
    Initialize
  | GetAction real nat State
  | StoreExperience State Action real State bool nat
  | Learn "nat \<Rightarrow> nat"
  | StartEpisode
  | EndEpisode real
  | SetExplorationRate double
  | EmergencyStop
  | ResetLearning
  | Shutdown

text \<open>
  One call: the error it raised, if any, and the engine afterwards. A caller may catch
  an exception and go on with the engine; after undefined behaviour there is no engine
  to speak of.
\<close>

fun exec :: "operation \<Rightarrow> ReinforcementLearningEngine \<Rightarrow> error option \<times> ReinforcementLearningEngine" where
  "exec Initialize e = (None, snd (initialize e))"
| "exec (GetAction u raw st) e =
     (case getAction u raw st e of (Inl err, e') \<Rightarrow> (Some err, e') | (Inr _, e') \<Rightarrow> (None, e'))"
| "exec (StoreExperience st a r nst d ts) e = (None, storeExperience st a r nst d ts e)"
| "exec (Learn raws) e =
     (case learn raws e of (Inl err, e') \<Rightarrow> (Some err, e') | (Inr _, e') \<Rightarrow> (None, e'))"
| "exec StartEpisode e = (None, startEpisode e)"
| "exec (EndEpisode total_reward) e = (None, endEpisode total_reward e)"
| "exec (SetExplorationRate eps) e = (None, setExplorationRate eps e)"
| "exec EmergencyStop e = (None, emergencyStop e)"
| "exec ResetLearning e = (None, resetLearning e)"
| "exec Shutdown e = (None, shutdown e)"

fun run :: "operation list \<Rightarrow> ReinforcementLearningEngine \<Rightarrow> ReinforcementLearningEngine option" where
  "run [] e = Some e"
| "run (x # xs) e =
     (case exec x e of
        (Some undefined_behaviour, _) \<Rightarrow> None
      | (_, e') \<Rightarrow> run xs e')"

text \<open>A sequence of \<^verbatim>\<open>storeExperience\<close> calls, one for each transition of a list, in order.\<close>

definition storeExperiences ::
  "Experience list \<Rightarrow> ReinforcementLearningEngine \<Rightarrow> ReinforcementLearningEngine" where
  "storeExperiences xs e =
     fold (\<lambda>x. storeExperience (state x) (action x) (Experience.reward x) (next_state x)
                  (done_flag x) (timestamp x)) xs e"


text \<open>The invariant of the exploration rate and its decay factor.\<close>

definition epsilon_ok :: "ReinforcementLearningEngine \<Rightarrow> bool" where
  "epsilon_ok e \<longleftrightarrow> in_unit_interval (epsilon e) \<and> epsilon_decay e = Finite 0.995"

text \<open>No call of \<^verbatim>\<open>setExplorationRate\<close> in the sequence has the argument NaN.\<close>

fun rates_not_NaN :: "operation list \<Rightarrow> bool" where
  "rates_not_NaN [] = True"
| "rates_not_NaN (SetExplorationRate v # xs) = (v \<noteq> NaN \<and> rates_not_NaN xs)"
| "rates_not_NaN (x # xs) = rates_not_NaN xs"

text \<open>
  A network pointer is \<open>configured\<close> when it is null or points to a network of the
  constructor's shape with the given input width and number of outputs.
\<close>

definition configured :: "nat \<Rightarrow> nat \<Rightarrow> QNetwork option \<Rightarrow> bool" where
  "configured state_size action_size n =
     (case n of
        None \<Rightarrow> True
      | Some q \<Rightarrow> well_formed q \<and> input_size q = state_size \<and> output_size q = action_size)"

text \<open>
  The last statement of \<^verbatim>\<open>learn\<close> as a function of the exploration rate, with floor \<open>m\<close> and
  decay factor \<open>d\<close>; it is used to state what repeated calls do.
\<close>

definition decay_step :: "double \<Rightarrow> double \<Rightarrow> double \<Rightarrow> double" where
  "decay_step m d x = (if dless m x then dmult x d else x)"

text \<open>The exploration rate lies strictly below the configured minimum.\<close>

definition below_floor :: "ReinforcementLearningEngine \<Rightarrow> bool" where
  "below_floor e \<longleftrightarrow> dless (epsilon e) (epsilon_min e)"

section \<open>The training protocol in the words of the specification\<close>

text \<open>
  The specification describes what \<^verbatim>\<open>learn\<close> does with each sampled transition: it computes
  a target value, \<open>reward\<close> if the transition is terminal and otherwise
  \<open>reward + gamma * max(target_network.predict(next_state))\<close>; it overwrites the component
  of the live network's prediction at the chosen action index with this target and leaves
  the other components as predicted; and it trains the live network on this blended
  vector. The three definitions below are these words; \<open>nxt\<close> is the prediction of the
  target network and \<open>cur\<close> that of the live network.
\<close>

definition spec_action_index :: "Experience \<Rightarrow> nat" where
  "spec_action_index x = (case parameters (action x) of [] \<Rightarrow> 0 | p # ps \<Rightarrow> nat \<lfloor>p\<rfloor>)"

definition spec_target_value :: "real \<Rightarrow> real list \<Rightarrow> Experience \<Rightarrow> real" where
  "spec_target_value g nxt x =
     (if done_flag x then Experience.reward x else Experience.reward x + g * Max (set nxt))"

definition spec_blended_target :: "real list \<Rightarrow> real \<Rightarrow> nat \<Rightarrow> real list" where
  "spec_blended_target cur v a = map (\<lambda>i. if i = a then v else cur ! i) [0..<length cur]"

text \<open>The transition at the \<open>k\<close>-th index that \<^verbatim>\<open>sampleBatch\<close> draws.\<close>

definition sampled_transition :: "(nat \<Rightarrow> nat) \<Rightarrow> ReinforcementLearningEngine \<Rightarrow> nat \<Rightarrow> Experience" where
  "sampled_transition raws e k = replay_buffer e ! (sampleBatch raws e ! k)"

text \<open>
  A transition on which one pass of the loop of \<^verbatim>\<open>trainOnBatch\<close> is defined for the live
  network \<open>q\<close> and the target network \<open>t\<close>: its feature vectors have the widths of the
  networks, its action has a first parameter that converts to a \<^verbatim>\<open>size_t\<close>, and the target
  network has an output to take the maximum of unless the transition is terminal.
\<close>

definition trainable :: "QNetwork \<Rightarrow> QNetwork \<Rightarrow> Experience \<Rightarrow> bool" where
  "trainable q t x \<longleftrightarrow>
     length (features (state x)) = input_size q \<and>
     length (features (next_state x)) = input_size t \<and>
     (case parameters (action x) of [] \<Rightarrow> False | p # ps \<Rightarrow> - 1 < p \<and> p < 2 ^ 64) \<and>
     (done_flag x \<or> 0 < output_size t)"

section \<open>Concrete engines and transitions\<close>

text \<open>
  The inputs at which the statements below are evaluated. \<open>unit_engine\<close> is
  \<^verbatim>\<open>ReinforcementLearningEngine(1, 1, 1, 0.001)\<close> whose live network drew the weight \<open>1\<close>
  everywhere and whose target network drew \<open>0\<close>; \<open>fixture_engine\<close> is the engine of the
  repository's test fixture, \<^verbatim>\<open>ReinforcementLearningEngine(4, 2, 64, 0.01)\<close>, with the same
  draws.
\<close>

definition ones :: "nat \<Rightarrow> real" where
  "ones i = 1"

definition zeros :: "nat \<Rightarrow> real" where
  "zeros i = 0"

definition first_index :: "nat \<Rightarrow> nat" where
  "first_index i = 0"

definition unit_engine :: ReinforcementLearningEngine where
  "unit_engine = ReinforcementLearningEngine_ctor 1 1 1 0.001 ones ones zeros zeros"

definition fixture_engine :: ReinforcementLearningEngine where
  "fixture_engine = ReinforcementLearningEngine_ctor 4 2 64 0.01 ones ones zeros zeros"

text \<open>
  A terminal transition from the state \<open>[1]\<close> with action index \<open>0\<close> and reward \<open>0\<close>, stored
  at clock reading \<open>ts\<close>.
\<close>

definition transition_at :: "nat \<Rightarrow> Experience" where
  "transition_at ts =
     \<lparr>state = State_ctor [1] ''s'', action = Action_ctor ''action_0'' [0], reward = 0,
      next_state = State_ctor [1] ''s'', done_flag = True, timestamp = ts\<rparr>"

text \<open>
  The network of shape \<open>1\<close>-\<open>1\<close>-\<open>1\<close> with first-layer weight \<open>1\<close>, second-layer weight \<open>w\<close>,
  zero biases and learning rate \<open>0.001\<close>.
\<close>

definition unit_network :: "real \<Rightarrow> QNetwork" where
  "unit_network w =
     \<lparr>weights = [[1], [w]], biases = [0, 0], input_size = 1, hidden_size = 1, output_size = 1,
      learning_rate = 0.001\<rparr>"

text \<open>The call of \<^verbatim>\<open>storeExperience\<close> that stores \<open>transition_at ts\<close>.\<close>

definition store_op :: "nat \<Rightarrow> operation" where
  "store_op ts =
     StoreExperience (State_ctor [1] ''s'') (Action_ctor ''action_0'' [0]) 0
       (State_ctor [1] ''s'') True ts"

text \<open>Thirty-two calls of \<^verbatim>\<open>storeExperience\<close>, at clock readings \<open>0\<close> to \<open>31\<close>: one full batch.\<close>

definition refilled_engine :: "ReinforcementLearningEngine \<Rightarrow> ReinforcementLearningEngine" where
  "refilled_engine e = storeExperiences (map transition_at [0..<32]) e"

text \<open>
  An engine with two actions, \<^verbatim>\<open>ReinforcementLearningEngine(1, 2, 1, 0.001)\<close>: its live network
  drew the weight \<open>1\<close> everywhere (it is \<open>pair_network 1\<close>), its target network drew
  \<open>1, 2, \<dots>\<close> in each layer. \<open>nonterminal_at ts\<close> is a non-terminal transition with action
  index \<open>1\<close> and reward \<open>1\<close>, and \<open>refilled_pair_engine\<close> is the engine after thirty-two of
  them have been stored.
\<close>

definition stairs :: "nat \<Rightarrow> real" where
  "stairs i = real i + 1"

definition pair_network :: "real \<Rightarrow> QNetwork" where
  "pair_network w =
     \<lparr>weights = [[1], [1, w]], biases = [0, 0, 0], input_size = 1, hidden_size = 1,
      output_size = 2, learning_rate = 0.001\<rparr>"

definition pair_engine :: ReinforcementLearningEngine where
  "pair_engine = ReinforcementLearningEngine_ctor 1 2 1 0.001 ones ones stairs stairs"

definition nonterminal_at :: "nat \<Rightarrow> Experience" where
  "nonterminal_at ts =
     \<lparr>state = State_ctor [1] ''s'', action = Action_ctor ''action_1'' [1], reward = 1,
      next_state = State_ctor [1] ''s2'', done_flag = False, timestamp = ts\<rparr>"

definition refilled_pair_engine :: ReinforcementLearningEngine where
  "refilled_pair_engine = storeExperiences (map nonterminal_at [0..<32]) pair_engine"

section \<open>Properties of QNetwork\<close>

lemma well_formed_QNetwork_ctor:
  "well_formed (QNetwork_ctor i h oz lr d d2)"
  by (simp add: well_formed_def QNetwork_ctor_def)

lemma first_layer_read_in_range:
  assumes "i < (a::nat)" and "h < b"
  shows "i * b + h < a * b"
proof -
  have "i * b + h < i * b + b" using assms(2) by simp
  also have "\<dots> = Suc i * b" by simp
  also have "\<dots> \<le> a * b" using assms(1) by (intro mult_le_mono1) simp
  finally show ?thesis .
qed

lemma forward_length:
  "forward n input = Inr out \<Longrightarrow> length out = output_size n"
  by (auto simp: forward_def Let_def split: if_splits)

lemma backward_sizes:
  assumes "backward n input target = Inr n'"
  shows "input_size n' = input_size n \<and> hidden_size n' = hidden_size n \<and>
         output_size n' = output_size n \<and> biases n' = biases n \<and>
         QNetwork.learning_rate n' = QNetwork.learning_rate n"
  using assms by (auto simp: backward_def Let_def split: sum.splits if_splits)

lemma backward_well_formed:
  assumes "backward n input target = Inr n'" and "well_formed n"
  shows "well_formed n'"
  using assms
  by (auto simp: backward_def Let_def well_formed_def split: sum.splits if_splits)

lemma train_sizes:
  assumes "train n st target = Inr n'"
  shows "input_size n' = input_size n \<and> hidden_size n' = hidden_size n \<and>
         output_size n' = output_size n \<and> biases n' = biases n \<and>
         QNetwork.learning_rate n' = QNetwork.learning_rate n"
  using assms backward_sizes
  by (auto simp: train_def split: sum.splits if_splits)

lemma train_well_formed:
  assumes "train n st target = Inr n'" and "well_formed n"
  shows "well_formed n'"
  using assms backward_well_formed
  by (auto simp: train_def split: sum.splits if_splits)

section \<open>Properties of the library functions\<close>

lemma max_element_fold:
  assumes "1 \<le> k" and "k \<le> length xs"
  shows "fold (\<lambda>i largest. if xs ! largest < xs ! i then i else largest) [1..<k] 0 < k \<and>
         xs ! fold (\<lambda>i largest. if xs ! largest < xs ! i then i else largest) [1..<k] 0
           = Max (set (take k xs))"
  using assms
proof (induction k)
  case 0
  then show ?case by simp
next
  case (Suc k)
  show ?case
  proof (cases "k = 0")
    case True
    with Suc.prems show ?thesis by (cases xs) simp_all
  next
    case False
    let ?f = "\<lambda>i largest. if xs ! largest < xs ! i then i else largest"
    let ?m = "fold ?f [1..<k] 0"
    from False Suc have ih: "?m < k" "xs ! ?m = Max (set (take k xs))" by simp_all
    have upt: "[1..<Suc k] = [1..<k] @ [k]" using False by simp
    have tk: "take (Suc k) xs = take k xs @ [xs ! k]"
      using Suc.prems by (simp add: take_Suc_conv_app_nth)
    have ne: "set (take k xs) \<noteq> {}" using False Suc.prems by (cases xs) auto
    have mx: "Max (set (take (Suc k) xs)) = max (xs ! k) (Max (set (take k xs)))"
      using ne by (simp add: tk)
    show ?thesis
      unfolding upt fold_append comp_def mx
      using ih by (auto simp: max_def)
  qed
qed

lemma max_element_less: "xs \<noteq> [] \<Longrightarrow> max_element xs < length xs"
  using max_element_fold [of "length xs" xs]
  by (cases xs) (simp_all add: max_element_def)

lemma max_element_Max: "xs \<noteq> [] \<Longrightarrow> xs ! max_element xs = Max (set xs)"
  using max_element_fold [of "length xs" xs]
  by (cases xs) (simp_all add: max_element_def)

section \<open>Framing: training changes the live network only\<close>

lemma trainOnBatch_body_frame:
  assumes "trainOnBatch_body idx e = Inr e'"
  shows "e' = e\<lparr>q_network := q_network e'\<rparr>"
  using assms
  by (auto simp: trainOnBatch_body_def Let_def split: if_splits option.splits sum.splits)

lemma trainOnBatch_loop_frame:
  "snd (trainOnBatch_loop idxs e) = e\<lparr>q_network := q_network (snd (trainOnBatch_loop idxs e))\<rparr>"
proof (induction idxs arbitrary: e)
  case Nil
  then show ?case by simp
next
  case (Cons idx idxs)
  show ?case
  proof (cases "trainOnBatch_body idx e")
    case (Inl err)
    then show ?thesis by simp
  next
    case (Inr e1)
    have f1: "e1 = e\<lparr>q_network := q_network e1\<rparr>" by (rule trainOnBatch_body_frame [OF Inr])
    have "snd (trainOnBatch_loop idxs e1) = e1\<lparr>q_network := q_network (snd (trainOnBatch_loop idxs e1))\<rparr>"
      by (rule Cons.IH)
    also have "\<dots> = e\<lparr>q_network := q_network (snd (trainOnBatch_loop idxs e1))\<rparr>"
      by (subst f1) simp
    finally show ?thesis using Inr by simp
  qed
qed

lemma trainOnBatch_frame:
  "snd (trainOnBatch raws e) = e\<lparr>q_network := q_network (snd (trainOnBatch raws e))\<rparr>"
  unfolding trainOnBatch_def by (rule trainOnBatch_loop_frame)

lemma learn_cases:
  "learn raws e =
     (if length (replay_buffer e) < batch_size e then (Inr (), e)
      else
        (case fst (trainOnBatch raws e) of
           Inl err \<Rightarrow> (Inl err, e\<lparr>q_network := q_network (snd (trainOnBatch raws e))\<rparr>)
         | Inr _ \<Rightarrow>
             (Inr (), e\<lparr>q_network := q_network (snd (trainOnBatch raws e)),
                        steps_since_update :=
                          (if steps_since_update e + 1 \<ge> update_frequency e then 0
                           else steps_since_update e + 1),
                        epsilon :=
                          (if dless (epsilon_min e) (epsilon e)
                           then dmult (epsilon e) (epsilon_decay e)
                           else epsilon e)\<rparr>)))"
proof -
  obtain r e1 where t: "trainOnBatch raws e = (r, e1)" by (cases "trainOnBatch raws e")
  have f: "e1 = e\<lparr>q_network := q_network e1\<rparr>"
    using trainOnBatch_frame [of raws e] t by simp
  have t': "trainOnBatch raws e = (r, e\<lparr>q_network := q_network e1\<rparr>)"
    using t f by simp
  show ?thesis
    unfolding learn_def t'
    by (cases r) (simp_all add: Let_def updateTargetNetwork_def)
qed

section \<open>The replay buffer under storeExperience\<close>

text \<open>
  After any sequence of stores the buffer is the longest suffix of everything stored that
  fits the capacity.
\<close>

lemma storeExperience_buffer:
  "replay_buffer (storeExperience st a r nst d ts e) =
     (if length (replay_buffer e) \<ge> buffer_capacity e then tl (replay_buffer e)
      else replay_buffer e)
     @ [\<lparr>state = st, action = a, reward = r, next_state = nst, done_flag = d, timestamp = ts\<rparr>]"
  by (simp add: storeExperience_def Let_def)

lemma storeExperience_capacity:
  "buffer_capacity (storeExperience st a r nst d ts e) = buffer_capacity e"
  by (simp add: storeExperience_def Let_def)

lemma storeExperiences_snoc:
  "storeExperiences (xs @ [x]) e =
     storeExperience (state x) (action x) (Experience.reward x) (next_state x)
       (done_flag x) (timestamp x) (storeExperiences xs e)"
  by (simp add: storeExperiences_def)

lemma storeExperiences_capacity:
  "buffer_capacity (storeExperiences xs e) = buffer_capacity e"
  by (induction xs rule: rev_induct)
     (simp_all add: storeExperiences_snoc storeExperience_capacity, simp add: storeExperiences_def)

lemma storeExperiences_buffer:
  assumes "0 < buffer_capacity e" and "length (replay_buffer e) \<le> buffer_capacity e"
  shows "replay_buffer (storeExperiences xs e) =
           drop (length (replay_buffer e) + length xs - buffer_capacity e) (replay_buffer e @ xs)"
proof (induction xs rule: rev_induct)
  case Nil
  then show ?case using assms by (simp add: storeExperiences_def)
next
  case (snoc x xs)
  let ?c = "buffer_capacity e"
  let ?ys = "replay_buffer e @ xs"
  let ?n = "length (replay_buffer e) + length xs"
  let ?B = "replay_buffer (storeExperiences xs e)"
  have buf: "?B = drop (?n - ?c) ?ys" by (rule snoc.IH)
  have len: "length ?B = ?n - (?n - ?c)" unfolding buf by simp
  have step: "replay_buffer (storeExperiences (xs @ [x]) e) =
                (if length ?B \<ge> ?c then tl ?B else ?B) @ [x]"
    by (simp add: storeExperiences_snoc storeExperience_buffer storeExperiences_capacity)
  show ?case
  proof (cases "?c \<le> ?n")
    case True
    then have full: "length ?B \<ge> ?c" unfolding len by simp
    have d: "Suc (?n - ?c) \<le> length ?ys" using True assms(1) by simp
    have "replay_buffer (storeExperiences (xs @ [x]) e) = tl ?B @ [x]"
      unfolding step using full by simp
    also have "\<dots> = tl (drop (?n - ?c) ?ys) @ [x]" unfolding buf ..
    also have "\<dots> = drop (Suc (?n - ?c)) ?ys @ [x]" by (simp only: drop_Suc tl_drop)
    also have "\<dots> = drop (Suc (?n - ?c)) (?ys @ [x])" using d by simp
    also have "Suc (?n - ?c) = length (replay_buffer e) + length (xs @ [x]) - ?c"
      using True by simp
    finally show ?thesis by simp
  next
    case False
    then have notfull: "\<not> length ?B \<ge> ?c" unfolding len by simp
    have "replay_buffer (storeExperiences (xs @ [x]) e) = ?B @ [x]"
      unfolding step using notfull by simp
    also have "\<dots> = drop (?n - ?c) ?ys @ [x]" unfolding buf ..
    also have "\<dots> = ?ys @ [x]" using False by simp
    finally show ?thesis using False by simp
  qed
qed

section \<open>Sampling and training\<close>

lemma sampleBatch_in_range:
  assumes "replay_buffer e \<noteq> []" and "i \<in> set (sampleBatch raws e)"
  shows "i < length (replay_buffer e)"
  using assms by (auto simp: sampleBatch_def uniform_int_distribution_def)

lemma train_succeeds:
  assumes "length st = input_size q" and "length tgt = output_size q"
  shows "\<exists>q'. train q st tgt = Inr q'"
  using assms by (simp add: train_def backward_def forward_def Let_def)

text \<open>
  One pass of the loop of \<^verbatim>\<open>trainOnBatch\<close>: the live network is trained towards its own
  prediction with the entry at the action index replaced by the target value.
\<close>

lemma trainOnBatch_body_blend:
  assumes "q_network e = Some q" and "target_network e = Some t"
    and "idx < length (replay_buffer e)" and "x = replay_buffer e ! idx"
    and "length (features (state x)) = input_size q"
    and "length (features (next_state x)) = input_size t"
    and "parameters (action x) = p # ps" and "- 1 < p" and "p < 2 ^ 64"
    and "done_flag x \<or> 0 < output_size t"
  shows "\<exists>cur nxt tgt q'.
           predict q (features (state x)) = Inr cur \<and>
           predict t (features (next_state x)) = Inr nxt \<and>
           length tgt = length cur \<and>
           (\<forall>i < length cur. tgt ! i =
              (if i = nat \<lfloor>p\<rfloor>
               then (if done_flag x then Experience.reward x
                     else Experience.reward x + gamma e * Max (set nxt))
               else cur ! i)) \<and>
           train q (features (state x)) tgt = Inr q' \<and>
           trainOnBatch_body idx e = Inr (e\<lparr>q_network := Some q'\<rparr>)"
proof -
  obtain cur where cur: "predict q (features (state x)) = Inr cur" "length cur = output_size q"
    using assms(5) by (simp add: predict_def forward_def Let_def)
  obtain nxt where nxt: "predict t (features (next_state x)) = Inr nxt" "length nxt = output_size t"
    using assms(6) by (simp add: predict_def forward_def Let_def)
  define target_q where "target_q =
    (if done_flag x then Experience.reward x else Experience.reward x + gamma e * Max (set nxt))"
  define tgt where "tgt = (if nat \<lfloor>p\<rfloor> < length cur then cur[nat \<lfloor>p\<rfloor> := target_q] else cur)"
  have len: "length tgt = length cur" by (simp add: tgt_def)
  have comp: "\<forall>i < length cur. tgt ! i = (if i = nat \<lfloor>p\<rfloor> then target_q else cur ! i)"
    by (auto simp: tgt_def nth_list_update)
  obtain q' where q': "train q (features (state x)) tgt = Inr q'"
    using train_succeeds [OF assms(5), of tgt] len cur(2) by auto
  have ne: "\<not> done_flag x \<Longrightarrow> nxt \<noteq> []" using assms(10) nxt(2) by auto
  have mx: "\<not> done_flag x \<Longrightarrow> nxt ! max_element nxt = Max (set nxt)"
    using ne by (simp add: max_element_Max)
  have cast: "to_size_t p = Inr (nat \<lfloor>p\<rfloor>)" using assms(8,9) by (simp add: to_size_t_def)
  have body: "trainOnBatch_body idx e = Inr (e\<lparr>q_network := Some q'\<rparr>)"
    using assms(1,2,3) assms(4) [symmetric] cur(1) nxt(1) assms(7) cast q' ne mx
    by (auto simp: trainOnBatch_body_def Let_def tgt_def target_q_def)
  show ?thesis
    using cur(1) nxt(1) len comp q' body unfolding target_q_def by blast
qed

text \<open>With a full batch in the buffer, \<^verbatim>\<open>learn\<close> runs the loop over the sampled indices.\<close>

lemma learn_runs_trainOnBatch_loop:
  assumes "batch_size e \<le> length (replay_buffer e)"
  shows "fst (learn raws e) = fst (trainOnBatch_loop (sampleBatch raws e) e) \<and>
         q_network (snd (learn raws e)) = q_network (snd (trainOnBatch_loop (sampleBatch raws e) e))"
  using assms by (simp add: learn_cases trainOnBatch_def split: sum.splits)

section \<open>The buffer under sequences of operations\<close>



lemma run_Cons_Some:
  assumes "run (x # xs) e = Some e'"
  shows "run xs (snd (exec x e)) = Some e'"
  using assms by (auto split: prod.splits option.splits error.splits)



section \<open>The exploration rate under each operation\<close>

lemma learn_epsilon:
  "epsilon (snd (learn raws e)) = epsilon e \<or>
   epsilon (snd (learn raws e)) = dmult (epsilon e) (epsilon_decay e)"
  by (simp add: learn_cases split: sum.splits)

lemma learn_epsilon_decay: "epsilon_decay (snd (learn raws e)) = epsilon_decay e"
  by (simp add: learn_cases split: sum.splits)

text \<open>
  What \<^verbatim>\<open>std::clamp(v, 0.0, 1.0)\<close> returns: for a finite \<open>x\<close> the nearest value of the unit
  interval, for the infinities the bound on their side, and for NaN, NaN.
\<close>

lemma clamp_Finite: "clamp (Finite x) (Finite 0) (Finite 1) = Finite (max 0 (min 1 x))"
  by (simp add: clamp_def max_def min_def)

lemma clamp_infinities:
  "clamp PlusInfinity (Finite 0) (Finite 1) = Finite 1"
  "clamp MinusInfinity (Finite 0) (Finite 1) = Finite 0"
  by (simp_all add: clamp_def)

lemma dless_NaN: "dless x NaN = False" "dless NaN y = False"
  by (cases x) simp_all

lemma clamp_NaN: "clamp NaN lo hi = NaN"
  by (simp add: clamp_def dless_NaN)

lemma clamp_unit:
  assumes "v \<noteq> NaN"
  shows "in_unit_interval (clamp v (Finite 0) (Finite 1))"
  using assms by (cases v) (simp_all add: clamp_Finite clamp_infinities)

lemma exec_epsilon:
  "(epsilon (snd (exec x e)) = epsilon e \<or> epsilon (snd (exec x e)) = Finite 1 \<or>
    epsilon (snd (exec x e)) = dmult (epsilon e) (epsilon_decay e) \<or>
    (\<exists>v. x = SetExplorationRate v \<and>
          epsilon (snd (exec x e)) = clamp v (Finite 0) (Finite 1))) \<and>
   epsilon_decay (snd (exec x e)) = epsilon_decay e"
proof (cases x)
  case Initialize
  then show ?thesis by (simp add: initialize_def)
next
  case (GetAction u raw st)
  then show ?thesis by (simp add: getAction_def Let_def split: sum.splits)
next
  case (StoreExperience st a r nst d ts)
  then show ?thesis by (simp add: storeExperience_def Let_def)
next
  case (Learn raws)
  have "snd (exec x e) = snd (learn raws e)"
    unfolding Learn by (simp split: prod.splits sum.splits)
  then show ?thesis using learn_epsilon [of raws e] learn_epsilon_decay [of raws e] by auto
next
  case StartEpisode
  then show ?thesis by (simp add: startEpisode_def)
next
  case (EndEpisode r)
  then show ?thesis by (simp add: endEpisode_def)
next
  case (SetExplorationRate v)
  then show ?thesis by (simp add: setExplorationRate_def)
next
  case EmergencyStop
  then show ?thesis by (simp add: emergencyStop_def)
next
  case ResetLearning
  then show ?thesis by (simp add: resetLearning_def)
next
  case Shutdown
  then show ?thesis by (simp add: shutdown_def)
qed

lemma exec_epsilon_ok:
  assumes "epsilon_ok e" and "rates_not_NaN [x]"
  shows "epsilon_ok (snd (exec x e))"
proof -
  obtain y where y: "epsilon e = Finite y" "0 \<le> y" "y \<le> 1"
    using assms(1) by (cases "epsilon e") (simp_all add: epsilon_ok_def)
  have d: "epsilon_decay e = Finite 0.995" using assms(1) by (simp add: epsilon_ok_def)
  have "y * 0.995 \<le> 1" using y(2,3) by (intro mult_le_one) simp_all
  then have m: "in_unit_interval (dmult (epsilon e) (epsilon_decay e))"
    unfolding y(1) d using y(2) by simp
  have c: "\<And>v. x = SetExplorationRate v \<Longrightarrow> in_unit_interval (clamp v (Finite 0) (Finite 1))"
    using assms(2) by (auto intro: clamp_unit)
  have o: "in_unit_interval (epsilon e)" "in_unit_interval (Finite 1)"
    using y by simp_all
  show ?thesis
    unfolding epsilon_ok_def
    using exec_epsilon [of x e] d m c o by (elim conjE disjE exE) simp_all
qed

lemma rates_not_NaN_Cons:
  "rates_not_NaN (x # xs) \<longleftrightarrow> rates_not_NaN [x] \<and> rates_not_NaN xs"
  by (cases x) simp_all

lemma run_epsilon_ok:
  assumes "run ops e = Some e'" and "epsilon_ok e" and "rates_not_NaN ops"
  shows "epsilon_ok e'"
  using assms
proof (induction ops arbitrary: e)
  case Nil
  then show ?case by simp
next
  case (Cons x xs)
  have n: "rates_not_NaN [x]" "rates_not_NaN xs"
    using Cons.prems(3) rates_not_NaN_Cons [of x xs] by simp_all
  show ?case
    using Cons.IH [OF run_Cons_Some [OF Cons.prems(1)]
        exec_epsilon_ok [OF Cons.prems(2) n(1)] n(2)] .
qed

section \<open>The target network, the random action and the decay\<close>

lemma learn_target_network: "target_network (snd (learn raws e)) = target_network e"
  by (simp add: learn_cases split: sum.splits)

lemma exec_target_network:
  "target_network (snd (exec x e)) = target_network e \<or> target_network (snd (exec x e)) = None"
proof (cases x)
  case (Learn raws)
  have "snd (exec x e) = snd (learn raws e)"
    unfolding Learn by (simp split: prod.splits sum.splits)
  then show ?thesis by (simp add: learn_target_network)
next
  case (GetAction u raw st)
  then show ?thesis by (simp add: getAction_def Let_def split: sum.splits)
next
  case (StoreExperience st a r nst d ts)
  then show ?thesis by (simp add: storeExperience_def Let_def)
qed (simp_all add: initialize_def startEpisode_def endEpisode_def setExplorationRate_def
      emergencyStop_def resetLearning_def shutdown_def)

lemma uniform_int_distribution_range:
  "lo \<le> uniform_int_distribution lo hi raw \<and>
   (lo \<le> hi \<longrightarrow> uniform_int_distribution lo hi raw \<le> hi)"
proof -
  have "raw mod (hi - lo + 1) < hi - lo + 1" by simp
  then show ?thesis unfolding uniform_int_distribution_def by linarith
qed

lemma uniform_int_distribution_onto:
  assumes "lo \<le> v" and "v \<le> hi"
  shows "uniform_int_distribution lo hi (v - lo) = v"
  using assms by (simp add: uniform_int_distribution_def)

lemma selectRandomAction_index:
  "\<exists>i<4. selectRandomAction raw = Action_ctor (''action_'' @ to_string i) [real i]"
proof -
  have "uniform_int_distribution 0 3 raw < 4"
    using uniform_int_distribution_range [of 0 3 raw] by simp
  then show ?thesis unfolding selectRandomAction_def Let_def by blast
qed

lemma learn_epsilon_nonincreasing:
  assumes "epsilon e = Finite x" and "epsilon_decay e = Finite d"
    and "0 \<le> x" and "0 \<le> d" and "d \<le> 1"
  shows "\<exists>y. epsilon (snd (learn raws e)) = Finite y \<and> y \<le> x"
proof -
  have "x * d \<le> x" using assms(3,4,5) by (simp add: mult_left_le)
  then show ?thesis using learn_epsilon [of raws e] assms(1,2) by auto
qed

text \<open>How far below \<open>epsilon_min\<close> one call of \<^verbatim>\<open>learn\<close> can take the exploration rate.\<close>

lemma learn_epsilon_lower_bound:
  assumes "epsilon e = Finite x" and "epsilon_decay e = Finite d" and "epsilon_min e = Finite m"
    and "0 \<le> m" and "0 \<le> d" and "d \<le> 1" and "m \<le> x"
  shows "\<exists>y. epsilon (snd (learn raws e)) = Finite y \<and> m * d \<le> y"
proof -
  have a: "m * d \<le> x * d" using assms(5,7) by (rule mult_right_mono [rotated])
  have "m * d \<le> m" using assms(4,5,6) by (simp add: mult_left_le)
  then have b: "m * d \<le> x" using assms(7) by simp
  show ?thesis using learn_epsilon [of raws e] assms(1,2) a b by auto
qed

section \<open>The engine of shape 1-1-1 on terminal transitions\<close>

lemma unit_engine_networks:
  "q_network unit_engine = Some (unit_network 1)"
  "target_network unit_engine = Some (QNetwork_ctor 1 1 1 0.001 zeros zeros)"
  by (simp_all add: unit_engine_def ReinforcementLearningEngine_ctor_def QNetwork_ctor_def
        unit_network_def ones_def)

lemma unit_network_predict: "predict (unit_network w) [1] = Inr [w]"
  by (simp add: predict_def forward_def unit_network_def relu_def)

lemma unit_network_train: "train (unit_network w) [1] [0] = Inr (unit_network (w * 0.998))"
  by (simp add: train_def backward_def forward_def unit_network_def relu_def algebra_simps)

lemma unit_body:
  assumes "q_network e = Some (unit_network w)" and "target_network e = Some t"
    and "input_size t = 1" and "idx < length (replay_buffer e)"
    and "replay_buffer e ! idx = transition_at ts"
  shows "trainOnBatch_body idx e = Inr (e\<lparr>q_network := Some (unit_network (w * 0.998))\<rparr>)"
proof -
  obtain nxt where nxt: "predict t [1] = Inr nxt"
    using assms(3) by (simp add: predict_def forward_def Let_def)
  show ?thesis
    using assms nxt unit_network_predict [of w] unit_network_train [of w]
    by (simp add: trainOnBatch_body_def transition_at_def State_ctor_def Action_ctor_def
          to_size_t_def)
qed

lemma unit_loop:
  assumes "q_network e = Some (unit_network w)" and "target_network e = Some t"
    and "input_size t = 1" and "\<forall>i\<in>set idxs. i < length (replay_buffer e)"
    and "\<forall>x\<in>set (replay_buffer e). \<exists>ts. x = transition_at ts"
  shows "trainOnBatch_loop idxs e =
           (Inr (), e\<lparr>q_network := Some (unit_network (w * 0.998 ^ length idxs))\<rparr>)"
  using assms
proof (induction idxs arbitrary: e w)
  case Nil
  then show ?case by simp
next
  case (Cons idx idxs)
  let ?e1 = "e\<lparr>q_network := Some (unit_network (w * 0.998))\<rparr>"
  have inr: "idx < length (replay_buffer e)" using Cons.prems(4) by simp
  then obtain ts where ts: "replay_buffer e ! idx = transition_at ts"
    using Cons.prems(5) nth_mem by blast
  have b: "trainOnBatch_body idx e = Inr ?e1"
    by (rule unit_body [OF Cons.prems(1,2,3) inr ts])
  have "trainOnBatch_loop idxs ?e1 =
          (Inr (), ?e1\<lparr>q_network := Some (unit_network (w * 0.998 * 0.998 ^ length idxs))\<rparr>)"
    using Cons.prems by (intro Cons.IH) simp_all
  then show ?case using b by (simp add: mult.assoc)
qed

lemma unit_learn:
  assumes "q_network e = Some (unit_network w)" and "target_network e = Some t"
    and "input_size t = 1" and "replay_buffer e \<noteq> []"
    and "batch_size e \<le> length (replay_buffer e)"
    and "\<forall>x\<in>set (replay_buffer e). \<exists>ts. x = transition_at ts"
  shows "learn raws e =
           (Inr (), e\<lparr>q_network := Some (unit_network (w * 0.998 ^ batch_size e)),
                      steps_since_update :=
                        (if steps_since_update e + 1 \<ge> update_frequency e then 0
                         else steps_since_update e + 1),
                      epsilon := decay_step (epsilon_min e) (epsilon_decay e) (epsilon e)\<rparr>)"
proof -
  have rng: "\<forall>i\<in>set (sampleBatch raws e). i < length (replay_buffer e)"
    using sampleBatch_in_range [OF assms(4)] by blast
  have len: "length (sampleBatch raws e) = batch_size e" by (simp add: sampleBatch_def)
  have t: "trainOnBatch raws e =
             (Inr (), e\<lparr>q_network := Some (unit_network (w * 0.998 ^ batch_size e))\<rparr>)"
    unfolding trainOnBatch_def using unit_loop [OF assms(1,2,3) rng assms(6)] len by simp
  show ?thesis using assms(5) by (simp add: learn_cases t decay_step_def)
qed

lemma unit_run_learns:
  assumes "q_network e = Some (unit_network w)" and "target_network e = Some t"
    and "input_size t = 1" and "replay_buffer e \<noteq> []"
    and "batch_size e \<le> length (replay_buffer e)"
    and "\<forall>x\<in>set (replay_buffer e). \<exists>ts. x = transition_at ts"
    and "steps_since_update e < update_frequency e"
  shows "run (replicate n (Learn raws)) e =
           Some (e\<lparr>q_network := Some (unit_network (w * 0.998 ^ (n * batch_size e))),
                   steps_since_update := (steps_since_update e + n) mod update_frequency e,
                   epsilon := (decay_step (epsilon_min e) (epsilon_decay e) ^^ n) (epsilon e)\<rparr>)"
  using assms
proof (induction n arbitrary: e w)
  case 0
  then show ?case by simp
next
  case (Suc n)
  define s where "s = (if steps_since_update e + 1 \<ge> update_frequency e then 0
                       else steps_since_update e + 1)"
  define x where "x = decay_step (epsilon_min e) (epsilon_decay e) (epsilon e)"
  let ?e1 = "e\<lparr>q_network := Some (unit_network (w * 0.998 ^ batch_size e)),
               steps_since_update := s, epsilon := x\<rparr>"
  have l: "learn raws e = (Inr (), ?e1)"
    unfolding s_def x_def by (rule unit_learn [OF Suc.prems(1-6)])
  have s: "s = (steps_since_update e + 1) mod update_frequency e"
    using Suc.prems(7) unfolding s_def by (auto simp: le_Suc_eq not_le Suc_le_eq dest: le_antisym)
  have s_lt: "s < update_frequency e" using Suc.prems(7) unfolding s_def by auto
  have ih: "run (replicate n (Learn raws)) ?e1 =
          Some (?e1\<lparr>q_network := Some (unit_network (w * 0.998 ^ batch_size e * 0.998 ^ (n * batch_size ?e1))),
                   steps_since_update := (steps_since_update ?e1 + n) mod update_frequency ?e1,
                   epsilon := (decay_step (epsilon_min ?e1) (epsilon_decay ?e1) ^^ n) (epsilon ?e1)\<rparr>)"
    using Suc.prems s_lt by (intro Suc.IH) simp_all
  have m: "(s + n) mod update_frequency e = (steps_since_update e + Suc n) mod update_frequency e"
    unfolding s by (simp add: mod_add_left_eq)
  have q: "w * 0.998 ^ batch_size e * 0.998 ^ (n * batch_size e) = w * 0.998 ^ (Suc n * batch_size e)"
    by (simp add: power_add)
  have ep: "(decay_step (epsilon_min e) (epsilon_decay e) ^^ n) x =
            (decay_step (epsilon_min e) (epsilon_decay e) ^^ Suc n) (epsilon e)"
    unfolding x_def by (simp add: funpow_swap1)
  have r: "run (replicate (Suc n) (Learn raws)) e = run (replicate n (Learn raws)) ?e1"
    using l by simp
  show ?case
    unfolding r ih by (simp add: m ep power_add mult.assoc)
qed



section \<open>Powers of the decay factor\<close>

text \<open>
  Bounds on \<open>0.995 ^ 918\<close> and \<open>0.995 ^ 919\<close> by repeated squaring, with fifteen decimal places
  rounded in the safe direction at each step.
\<close>

lemma power_double_le:
  assumes "(0::real) \<le> a" and "a ^ n \<le> u" and "u * u \<le> v"
  shows "a ^ (2 * n) \<le> v"
proof -
  have "a ^ (2 * n) = a ^ n * a ^ n" by (simp add: power_add mult_2)
  also have "\<dots> \<le> u * u"
    using assms(1,2) by (intro mult_mono) (auto intro: order_trans [of 0 "a ^ n" u])
  finally show ?thesis using assms(3) by simp
qed

lemma power_double_ge:
  assumes "(0::real) \<le> l" and "l \<le> a ^ n" and "v \<le> l * l"
  shows "v \<le> a ^ (2 * n)"
proof -
  have "l * l \<le> a ^ n * a ^ n"
    using assms(1,2) by (intro mult_mono) auto
  also have "\<dots> = a ^ (2 * n)" by (simp add: power_add mult_2)
  finally show ?thesis using assms(3) by simp
qed

lemma power_add_le:
  assumes "(0::real) \<le> a" and "a ^ m \<le> u" and "a ^ n \<le> v" and "u * v \<le> w"
  shows "a ^ (m + n) \<le> w"
proof -
  have "a ^ (m + n) = a ^ m * a ^ n" by (simp add: power_add)
  also have "\<dots> \<le> u * v"
    using assms(1,2,3) by (intro mult_mono) (auto intro: order_trans [of 0 "a ^ m" u])
  finally show ?thesis using assms(4) by simp
qed

lemma power_add_ge:
  assumes "(0::real) \<le> l" and "(0::real) \<le> k" and "l \<le> a ^ m" and "k \<le> a ^ n" and "w \<le> l * k"
  shows "w \<le> a ^ (m + n)"
proof -
  have "l * k \<le> a ^ m * a ^ n"
    using assms(1,2,3,4) by (intro mult_mono) (auto intro: order_trans [of 0 l "a ^ m"])
  also have "\<dots> = a ^ (m + n)" by (simp add: power_add)
  finally show ?thesis using assms(5) by simp
qed

lemma decay_below_floor: "(0.995::real) ^ 919 < 0.01"
proof -
  define a :: real where "a = 0.995"
  have a0: "0 \<le> a" by (simp add: a_def)
  have u1: "a ^ 1 \<le> 199 / 200" by (simp add: a_def)
  have u2: "a ^ 2 \<le> 990025000000000 / 1000000000000000" using power_double_le [OF a0 u1, of "990025000000000 / 1000000000000000"] by simp
  have u4: "a ^ 4 \<le> 980149500625000 / 1000000000000000" using power_double_le [OF a0 u2, of "980149500625000 / 1000000000000000"] by simp
  have u8: "a ^ 8 \<le> 960693043575437 / 1000000000000000" using power_double_le [OF a0 u4, of "960693043575437 / 1000000000000000"] by simp
  have u16: "a ^ 16 \<le> 922931123974237 / 1000000000000000" using power_double_le [OF a0 u8, of "922931123974237 / 1000000000000000"] by simp
  have u32: "a ^ 32 \<le> 851801859600349 / 1000000000000000" using power_double_le [OF a0 u16, of "851801859600349 / 1000000000000000"] by simp
  have u64: "a ^ 64 \<le> 725566408018613 / 1000000000000000" using power_double_le [OF a0 u32, of "725566408018613 / 1000000000000000"] by simp
  have u128: "a ^ 128 \<le> 526446612445033 / 1000000000000000" using power_double_le [OF a0 u64, of "526446612445033 / 1000000000000000"] by simp
  have u256: "a ^ 256 \<le> 277146035754851 / 1000000000000000" using power_double_le [OF a0 u128, of "277146035754851 / 1000000000000000"] by simp
  have u512: "a ^ 512 \<le> 76809925134630 / 1000000000000000" using power_double_le [OF a0 u256, of "76809925134630 / 1000000000000000"] by simp
  have s768: "a ^ 768 \<le> 21287566257690 / 1000000000000000" using power_add_le [OF a0 u512 u256, of "21287566257690 / 1000000000000000"] by simp
  have s896: "a ^ 896 \<le> 11206767143561 / 1000000000000000" using power_add_le [OF a0 s768 u128, of "11206767143561 / 1000000000000000"] by simp
  have s912: "a ^ 912 \<le> 10343074195925 / 1000000000000000" using power_add_le [OF a0 s896 u16, of "10343074195925 / 1000000000000000"] by simp
  have s916: "a ^ 916 \<le> 10137759008064 / 1000000000000000" using power_add_le [OF a0 s912 u4, of "10137759008064 / 1000000000000000"] by simp
  have s918: "a ^ 918 \<le> 10036634861959 / 1000000000000000" using power_add_le [OF a0 s916 u2, of "10036634861959 / 1000000000000000"] by simp
  have s919: "a ^ 919 \<le> 9986451687650 / 1000000000000000" using power_add_le [OF a0 s918 u1, of "9986451687650 / 1000000000000000"] by simp
  have "a ^ 919 < 0.01" using s919 by simp
  then show ?thesis by (simp add: a_def)
qed

lemma decay_above_floor: "0.01 < (0.995::real) ^ 918"
proof -
  define a :: real where "a = 0.995"
  have l1: "199 / 200 \<le> a ^ 1" by (simp add: a_def)
  have l2: "990025000000000 / 1000000000000000 \<le> a ^ 2" using power_double_ge [OF _ l1, of "990025000000000 / 1000000000000000"] by simp
  have l4: "980149500625000 / 1000000000000000 \<le> a ^ 4" using power_double_ge [OF _ l2, of "980149500625000 / 1000000000000000"] by simp
  have l8: "960693043575436 / 1000000000000000 \<le> a ^ 8" using power_double_ge [OF _ l4, of "960693043575436 / 1000000000000000"] by simp
  have l16: "922931123974234 / 1000000000000000 \<le> a ^ 16" using power_double_ge [OF _ l8, of "922931123974234 / 1000000000000000"] by simp
  have l32: "851801859600342 / 1000000000000000 \<le> a ^ 32" using power_double_ge [OF _ l16, of "851801859600342 / 1000000000000000"] by simp
  have l64: "725566408018600 / 1000000000000000 \<le> a ^ 64" using power_double_ge [OF _ l32, of "725566408018600 / 1000000000000000"] by simp
  have l128: "526446612445013 / 1000000000000000 \<le> a ^ 128" using power_double_ge [OF _ l64, of "526446612445013 / 1000000000000000"] by simp
  have l256: "277146035754829 / 1000000000000000 \<le> a ^ 256" using power_double_ge [OF _ l128, of "277146035754829 / 1000000000000000"] by simp
  have l512: "76809925134616 / 1000000000000000 \<le> a ^ 512" using power_double_ge [OF _ l256, of "76809925134616 / 1000000000000000"] by simp
  have t768: "21287566257684 / 1000000000000000 \<le> a ^ 768" using power_add_ge [OF _ _ l512 l256, of "21287566257684 / 1000000000000000"] by simp
  have t896: "11206767143556 / 1000000000000000 \<le> a ^ 896" using power_add_ge [OF _ _ t768 l128, of "11206767143556 / 1000000000000000"] by simp
  have t912: "10343074195919 / 1000000000000000 \<le> a ^ 912" using power_add_ge [OF _ _ t896 l16, of "10343074195919 / 1000000000000000"] by simp
  have t916: "10137759008057 / 1000000000000000 \<le> a ^ 916" using power_add_ge [OF _ _ t912 l4, of "10137759008057 / 1000000000000000"] by simp
  have t918: "10036634861951 / 1000000000000000 \<le> a ^ 918" using power_add_ge [OF _ _ t916 l2, of "10036634861951 / 1000000000000000"] by simp
  have "0.01 < a ^ 918" using t918 by simp
  then show ?thesis by (simp add: a_def)
qed


lemma decay_step_funpow:
  assumes "0 \<le> x" and "0 \<le> d" and "d \<le> 1" and "m < x * d ^ n"
  shows "(decay_step (Finite m) (Finite d) ^^ Suc n) (Finite x) = Finite (x * d ^ Suc n)"
  using assms(4)
proof (induction n)
  case 0
  then show ?case by (simp add: decay_step_def)
next
  case (Suc n)
  let ?f = "decay_step (Finite m) (Finite d)"
  have "x * d ^ Suc n \<le> x * d ^ n"
    using assms(1,2,3) by (intro mult_left_mono power_decreasing) simp_all
  then have "m < x * d ^ n" using Suc.prems by simp
  then have ih: "(?f ^^ Suc n) (Finite x) = Finite (x * d ^ Suc n)" by (rule Suc.IH)
  have "(?f ^^ Suc (Suc n)) (Finite x) = ?f ((?f ^^ Suc n) (Finite x))"
    by simp
  also have "\<dots> = ?f (Finite (x * d ^ Suc n))" unfolding ih ..
  also have "\<dots> = Finite (x * d ^ Suc n * d)" using Suc.prems by (simp add: decay_step_def)
  finally show ?case by simp
qed

lemma storeExperience_frame:
  "storeExperience st a r nst d ts e =
     e\<lparr>replay_buffer := replay_buffer (storeExperience st a r nst d ts e)\<rparr>"
  by (simp add: storeExperience_def Let_def)

lemma storeExperiences_frame:
  "storeExperiences xs e = e\<lparr>replay_buffer := replay_buffer (storeExperiences xs e)\<rparr>"
proof (induction xs rule: rev_induct)
  case Nil
  then show ?case by (simp add: storeExperiences_def)
next
  case (snoc x xs)
  let ?f = "storeExperience (state x) (action x) (Experience.reward x) (next_state x)
              (done_flag x) (timestamp x)"
  have "storeExperiences (xs @ [x]) e = ?f (storeExperiences xs e)"
    by (rule storeExperiences_snoc)
  also have "\<dots> = (storeExperiences xs e)\<lparr>replay_buffer := replay_buffer (?f (storeExperiences xs e))\<rparr>"
    by (rule storeExperience_frame)
  also have "\<dots> = e\<lparr>replay_buffer := replay_buffer (?f (storeExperiences xs e))\<rparr>"
    by (subst snoc.IH) simp
  finally show ?case by (simp add: storeExperiences_snoc)
qed

lemma refilled_engine_eq:
  assumes "0 < buffer_capacity e" and "replay_buffer e = []" and "32 \<le> buffer_capacity e"
  shows "refilled_engine e = e\<lparr>replay_buffer := map transition_at [0..<32]\<rparr>"
proof -
  have "replay_buffer (refilled_engine e) = map transition_at [0..<32]"
    unfolding refilled_engine_def
    using storeExperiences_buffer [OF assms(1), of "map transition_at [0..<32]"] assms(2,3)
    by simp
  then show ?thesis
    unfolding refilled_engine_def
    using storeExperiences_frame [of "map transition_at [0..<32]" e] by simp
qed

lemma unit_engine_fields:
  "replay_buffer unit_engine = []" "buffer_capacity unit_engine = 10000"
  "batch_size unit_engine = 32" "epsilon unit_engine = Finite 1"
  "epsilon_decay unit_engine = Finite 0.995"
  "epsilon_min unit_engine = Finite 0.01" "update_frequency unit_engine = 100"
  "steps_since_update unit_engine = 0"
  by (simp_all add: unit_engine_def ReinforcementLearningEngine_ctor_def)

lemma zero_network_input_size: "input_size (QNetwork_ctor 1 1 1 0.001 zeros zeros) = 1"
  by (simp add: QNetwork_ctor_def)

lemma only_unit_transitions: "\<forall>x\<in>set (map transition_at [0..<32]). \<exists>ts. x = transition_at ts"
  by auto

lemma refilled_unit_engine:
  "refilled_engine unit_engine = unit_engine\<lparr>replay_buffer := map transition_at [0..<32]\<rparr>"
  by (rule refilled_engine_eq) (simp_all add: unit_engine_fields)


lemma refilled_unit_engine_fields:
  "q_network (refilled_engine unit_engine) = Some (unit_network 1)"
  "target_network (refilled_engine unit_engine) = Some (QNetwork_ctor 1 1 1 0.001 zeros zeros)"
  "replay_buffer (refilled_engine unit_engine) = map transition_at [0..<32]"
  "batch_size (refilled_engine unit_engine) = 32"
  "epsilon (refilled_engine unit_engine) = Finite 1"
  "epsilon_decay (refilled_engine unit_engine) = Finite 0.995"
  "epsilon_min (refilled_engine unit_engine) = Finite 0.01"
  "update_frequency (refilled_engine unit_engine) = 100"
  "steps_since_update (refilled_engine unit_engine) = 0"
  unfolding refilled_unit_engine
  by (simp_all add: unit_engine_networks unit_engine_fields)

lemma run_learns_refilled:
  "run (replicate n (Learn raws)) (refilled_engine unit_engine) =
     Some ((refilled_engine unit_engine)
             \<lparr>q_network := Some (unit_network (0.998 ^ (n * 32))),
              steps_since_update := n mod 100,
              epsilon := (decay_step (Finite 0.01) (Finite 0.995) ^^ n) (Finite 1)\<rparr>)"
proof -
  let ?e = "refilled_engine unit_engine"
  have ne: "replay_buffer ?e \<noteq> []"
    unfolding refilled_unit_engine_fields by simp
  have bs: "batch_size ?e \<le> length (replay_buffer ?e)"
    unfolding refilled_unit_engine_fields by simp
  have ts: "\<forall>x\<in>set (replay_buffer ?e). \<exists>ts. x = transition_at ts"
    unfolding refilled_unit_engine_fields by (rule only_unit_transitions)
  have st: "steps_since_update ?e < update_frequency ?e"
    unfolding refilled_unit_engine_fields by simp
  show ?thesis
    using unit_run_learns [OF refilled_unit_engine_fields(1,2) zero_network_input_size ne bs ts st,
        of n raws]
    unfolding refilled_unit_engine_fields by simp
qed


section \<open>Sequences of calls on the engine of shape 1-1-1\<close>

lemma run_append:
  "run (xs @ ys) e = (case run xs e of None \<Rightarrow> None | Some e' \<Rightarrow> run ys e')"
proof (induction xs arbitrary: e)
  case Nil
  then show ?case by simp
next
  case (Cons x xs)
  obtain r e1 where x: "exec x e = (r, e1)" by (cases "exec x e")
  show ?case
  proof (cases "r = Some undefined_behaviour")
    case True
    then show ?thesis using x by simp
  next
    case False
    then have "run ((x # xs) @ ys) e = run (xs @ ys) e1" "run (x # xs) e = run xs e1"
      using x by (auto split: option.splits error.splits)
    then show ?thesis using Cons.IH [of e1] by simp
  qed
qed

lemma run_store_ops:
  "run (map store_op tss) e = Some (storeExperiences (map transition_at tss) e)"
proof (induction tss arbitrary: e)
  case Nil
  then show ?case by (simp add: storeExperiences_def)
next
  case (Cons ts tss)
  have "exec (store_op ts) e =
          (None, storeExperience (state (transition_at ts)) (action (transition_at ts))
                   (Experience.reward (transition_at ts)) (next_state (transition_at ts))
                   (done_flag (transition_at ts)) (timestamp (transition_at ts)) e)"
    by (simp add: store_op_def transition_at_def)
  then show ?case using Cons.IH by (simp add: storeExperiences_def)
qed

lemma run_refill: "run (map store_op [0..<32]) e = Some (refilled_engine e)"
  unfolding refilled_engine_def by (rule run_store_ops)

lemma run_refill_then:
  "run (map store_op [0..<32] @ ops) e = run ops (refilled_engine e)"
  by (simp only: run_append run_refill option.case)

section \<open>Invariants of the engines reached from the constructor\<close>

text \<open>
  Every network of a reachable engine keeps the shape and the sizes the constructor gave
  it, and the replay buffer of a reachable engine never holds more than
  \<open>buffer_capacity\<close> transitions.
\<close>

lemma train_configured:
  assumes "train q st tgt = Inr q'" and "configured ss az (Some q)"
  shows "configured ss az (Some q')"
  using assms train_sizes [OF assms(1)] train_well_formed [OF assms(1)]
  by (simp add: configured_def)

lemma trainOnBatch_body_train:
  assumes "trainOnBatch_body idx e = Inr e'"
  shows "\<exists>q st tgt q'. q_network e = Some q \<and> train q st tgt = Inr q' \<and>
                         e' = e\<lparr>q_network := Some q'\<rparr>"
  using assms
  by (auto simp: trainOnBatch_body_def Let_def split: if_splits option.splits sum.splits)

lemma trainOnBatch_body_configured:
  assumes "trainOnBatch_body idx e = Inr e'" and "configured ss az (q_network e)"
  shows "configured ss az (q_network e')"
proof -
  obtain q st tgt q' where "q_network e = Some q" "train q st tgt = Inr q'"
    "e' = e\<lparr>q_network := Some q'\<rparr>"
    using trainOnBatch_body_train [OF assms(1)] by blast
  then show ?thesis using train_configured assms(2) by simp
qed

lemma trainOnBatch_loop_configured:
  assumes "configured ss az (q_network e)"
  shows "configured ss az (q_network (snd (trainOnBatch_loop idxs e)))"
  using assms
proof (induction idxs arbitrary: e)
  case Nil
  then show ?case by simp
next
  case (Cons idx idxs)
  show ?case
  proof (cases "trainOnBatch_body idx e")
    case (Inl err)
    then show ?thesis using Cons.prems by simp
  next
    case (Inr e1)
    then show ?thesis
      using Cons.IH [OF trainOnBatch_body_configured [OF Inr Cons.prems]] by simp
  qed
qed

lemma learn_configured:
  assumes "configured ss az (q_network e)"
  shows "configured ss az (q_network (snd (learn raws e)))"
  using assms trainOnBatch_loop_configured [OF assms, of "sampleBatch raws e"]
  by (simp add: learn_cases trainOnBatch_def split: sum.splits)

lemma exec_configured:
  assumes "configured ss az (q_network e)" and "configured ss az (target_network e)"
  shows "configured ss az (q_network (snd (exec x e))) \<and>
         configured ss az (target_network (snd (exec x e)))"
proof (cases x)
  case (Learn raws)
  have "snd (exec x e) = snd (learn raws e)"
    unfolding Learn by (simp split: prod.splits sum.splits)
  then show ?thesis using learn_configured [OF assms(1)] assms(2)
    by (simp add: learn_target_network)
next
  case (GetAction u raw st)
  then show ?thesis using assms by (simp add: getAction_def Let_def split: sum.splits)
next
  case (StoreExperience st a r nst d ts)
  then show ?thesis using assms by (simp add: storeExperience_def Let_def)
next
  case Shutdown
  then show ?thesis by (simp add: shutdown_def configured_def)
qed (use assms in \<open>simp_all add: initialize_def startEpisode_def endEpisode_def
      setExplorationRate_def emergencyStop_def resetLearning_def\<close>)

lemma run_configured:
  assumes "run ops e = Some e'"
    and "configured ss az (q_network e)" and "configured ss az (target_network e)"
  shows "configured ss az (q_network e') \<and> configured ss az (target_network e')"
  using assms
proof (induction ops arbitrary: e)
  case Nil
  then show ?case by simp
next
  case (Cons x xs)
  show ?case
    using Cons.IH [OF run_Cons_Some [OF Cons.prems(1)]] exec_configured [OF Cons.prems(2,3)]
    by blast
qed

lemma reachable_networks_configured:
  assumes "run ops (ReinforcementLearningEngine_ctor state_size action_size hidden_sz lr qa qb ta tb)
             = Some e"
  shows "configured state_size action_size (q_network e) \<and>
         configured state_size action_size (target_network e)"
proof -
  have "configured state_size action_size
          (q_network (ReinforcementLearningEngine_ctor state_size action_size hidden_sz lr qa qb ta tb))"
       "configured state_size action_size
          (target_network (ReinforcementLearningEngine_ctor state_size action_size hidden_sz lr qa qb ta tb))"
    by (simp_all add: configured_def ReinforcementLearningEngine_ctor_def well_formed_QNetwork_ctor)
       (simp_all add: QNetwork_ctor_def)
  then show ?thesis by (rule run_configured [OF assms])
qed

lemma exec_buffer_bounded:
  assumes "0 < buffer_capacity e" and "length (replay_buffer e) \<le> buffer_capacity e"
  shows "buffer_capacity (snd (exec x e)) = buffer_capacity e \<and>
         length (replay_buffer (snd (exec x e))) \<le> buffer_capacity e"
proof (cases x)
  case (Learn raws)
  then show ?thesis using assms by (simp add: learn_cases split: sum.splits prod.splits)
next
  case (StoreExperience st a r nst d ts)
  then show ?thesis using assms
    by (cases "replay_buffer e") (simp_all add: storeExperience_buffer storeExperience_capacity)
next
  case (GetAction u raw st)
  then show ?thesis using assms by (simp add: getAction_def Let_def split: sum.splits)
qed (use assms in \<open>simp_all add: initialize_def startEpisode_def endEpisode_def
      setExplorationRate_def emergencyStop_def resetLearning_def shutdown_def\<close>)

lemma reachable_buffer_bounded:
  assumes "run ops e = Some e'"
    and "0 < buffer_capacity e" and "length (replay_buffer e) \<le> buffer_capacity e"
  shows "buffer_capacity e' = buffer_capacity e \<and> length (replay_buffer e') \<le> buffer_capacity e"
  using assms
proof (induction ops arbitrary: e)
  case Nil
  then show ?case by simp
next
  case (Cons x xs)
  have s: "buffer_capacity (snd (exec x e)) = buffer_capacity e"
          "length (replay_buffer (snd (exec x e))) \<le> buffer_capacity e"
    using exec_buffer_bounded [OF Cons.prems(2,3)] by simp_all
  show ?case
    using Cons.IH [OF run_Cons_Some [OF Cons.prems(1)]] s Cons.prems(2) by simp
qed

section \<open>One batch in the words of the specification\<close>

text \<open>
  Each pass of the loop trains the live network on the blended target of the
  specification, and the passes follow each other on the sampled indices.
\<close>

lemma trainOnBatch_body_spec:
  assumes "q_network e = Some q" and "target_network e = Some t"
    and "idx < length (replay_buffer e)" and "trainable q t (replay_buffer e ! idx)"
  shows "\<exists>cur nxt q'.
           predict q (features (state (replay_buffer e ! idx))) = Inr cur \<and>
           predict t (features (next_state (replay_buffer e ! idx))) = Inr nxt \<and>
           train q (features (state (replay_buffer e ! idx)))
             (spec_blended_target cur
                (spec_target_value (gamma e) nxt (replay_buffer e ! idx))
                (spec_action_index (replay_buffer e ! idx))) = Inr q' \<and>
           trainOnBatch_body idx e = Inr (e\<lparr>q_network := Some q'\<rparr>)"
proof -
  let ?x = "replay_buffer e ! idx"
  obtain p ps where ps: "parameters (action ?x) = p # ps" "- 1 < p" "p < 2 ^ 64"
    using assms(4) by (auto simp: trainable_def split: list.splits)
  have w: "length (features (state ?x)) = input_size q"
          "length (features (next_state ?x)) = input_size t"
          "done_flag ?x \<or> 0 < output_size t"
    using assms(4) by (simp_all add: trainable_def)
  obtain cur nxt tgt q' where
    c: "predict q (features (state ?x)) = Inr cur" and
    n: "predict t (features (next_state ?x)) = Inr nxt" and
    l: "length tgt = length cur" and
    t: "\<forall>i < length cur. tgt ! i =
              (if i = nat \<lfloor>p\<rfloor>
               then (if done_flag ?x then Experience.reward ?x
                     else Experience.reward ?x + gamma e * Max (set nxt))
               else cur ! i)" and
    tr: "train q (features (state ?x)) tgt = Inr q'" and
    b: "trainOnBatch_body idx e = Inr (e\<lparr>q_network := Some q'\<rparr>)"
    using trainOnBatch_body_blend [OF assms(1,2,3) refl w(1,2) ps w(3)] by blast
  have "tgt = spec_blended_target cur (spec_target_value (gamma e) nxt ?x) (spec_action_index ?x)"
    using l t
    by (intro nth_equalityI)
       (simp_all add: spec_blended_target_def spec_target_value_def spec_action_index_def ps(1))
  then show ?thesis using c n tr b by blast
qed

lemma train_trainable:
  assumes "train q st tgt = Inr q'" and "trainable q t x"
  shows "trainable q' t x"
  using assms(2) train_sizes [OF assms(1)] by (simp add: trainable_def)

lemma trainOnBatch_loop_spec:
  assumes "q_network e = Some q" and "target_network e = Some t"
    and "\<forall>i\<in>set idxs. i < length (replay_buffer e)"
    and "list_all (trainable q t) (replay_buffer e)"
  shows "\<exists>qs. length qs = Suc (length idxs) \<and> qs ! 0 = q \<and>
           (\<forall>k<length idxs. \<exists>cur nxt.
              predict (qs ! k) (features (state (replay_buffer e ! (idxs ! k)))) = Inr cur \<and>
              predict t (features (next_state (replay_buffer e ! (idxs ! k)))) = Inr nxt \<and>
              train (qs ! k) (features (state (replay_buffer e ! (idxs ! k))))
                (spec_blended_target cur
                   (spec_target_value (gamma e) nxt (replay_buffer e ! (idxs ! k)))
                   (spec_action_index (replay_buffer e ! (idxs ! k)))) = Inr (qs ! Suc k)) \<and>
           trainOnBatch_loop idxs e = (Inr (), e\<lparr>q_network := Some (qs ! length idxs)\<rparr>)"
  using assms
proof (induction idxs arbitrary: e q)
  case Nil
  have "e = e\<lparr>q_network := Some q\<rparr>" using Nil.prems(1) by simp
  then have "trainOnBatch_loop [] e = (Inr (), e\<lparr>q_network := Some ([q] ! length [])\<rparr>)"
    by simp
  then show ?case by (intro exI [of _ "[q]"]) simp
next
  case (Cons idx idxs)
  let ?x = "replay_buffer e ! idx"
  have inr: "idx < length (replay_buffer e)" using Cons.prems(3) by simp
  have tx: "trainable q t ?x"
    using Cons.prems(4) inr by (simp add: list_all_length)
  obtain cur nxt q' where
    c: "predict q (features (state ?x)) = Inr cur" and
    n: "predict t (features (next_state ?x)) = Inr nxt" and
    tr: "train q (features (state ?x))
           (spec_blended_target cur (spec_target_value (gamma e) nxt ?x) (spec_action_index ?x))
         = Inr q'" and
    b: "trainOnBatch_body idx e = Inr (e\<lparr>q_network := Some q'\<rparr>)"
    using trainOnBatch_body_spec [OF Cons.prems(1,2) inr tx] by blast
  let ?e1 = "e\<lparr>q_network := Some q'\<rparr>"
  have all': "list_all (trainable q' t) (replay_buffer ?e1)"
    using Cons.prems(4) train_trainable [OF tr] by (auto simp: list_all_iff)
  have rng': "\<forall>i\<in>set idxs. i < length (replay_buffer ?e1)" using Cons.prems(3) by simp
  obtain qs where
    len: "length qs = Suc (length idxs)" and
    q0: "qs ! 0 = q'" and
    steps: "\<forall>k<length idxs. \<exists>cur nxt.
              predict (qs ! k) (features (state (replay_buffer ?e1 ! (idxs ! k)))) = Inr cur \<and>
              predict t (features (next_state (replay_buffer ?e1 ! (idxs ! k)))) = Inr nxt \<and>
              train (qs ! k) (features (state (replay_buffer ?e1 ! (idxs ! k))))
                (spec_blended_target cur
                   (spec_target_value (gamma ?e1) nxt (replay_buffer ?e1 ! (idxs ! k)))
                   (spec_action_index (replay_buffer ?e1 ! (idxs ! k)))) = Inr (qs ! Suc k)" and
    loop: "trainOnBatch_loop idxs ?e1 = (Inr (), ?e1\<lparr>q_network := Some (qs ! length idxs)\<rparr>)"
    using Cons.IH [of ?e1 q'] Cons.prems(2) all' rng' by auto
  let ?qs = "q # qs"
  have a: "length ?qs = Suc (length (idx # idxs))" using len by simp
  have b0: "?qs ! 0 = q" by simp
  have st: "\<forall>k<length (idx # idxs). \<exists>cur nxt.
              predict (?qs ! k) (features (state (replay_buffer e ! ((idx # idxs) ! k)))) = Inr cur \<and>
              predict t (features (next_state (replay_buffer e ! ((idx # idxs) ! k)))) = Inr nxt \<and>
              train (?qs ! k) (features (state (replay_buffer e ! ((idx # idxs) ! k))))
                (spec_blended_target cur
                   (spec_target_value (gamma e) nxt (replay_buffer e ! ((idx # idxs) ! k)))
                   (spec_action_index (replay_buffer e ! ((idx # idxs) ! k)))) = Inr (?qs ! Suc k)"
  proof (intro allI impI)
    fix k assume k: "k < length (idx # idxs)"
    show "\<exists>cur nxt.
              predict (?qs ! k) (features (state (replay_buffer e ! ((idx # idxs) ! k)))) = Inr cur \<and>
              predict t (features (next_state (replay_buffer e ! ((idx # idxs) ! k)))) = Inr nxt \<and>
              train (?qs ! k) (features (state (replay_buffer e ! ((idx # idxs) ! k))))
                (spec_blended_target cur
                   (spec_target_value (gamma e) nxt (replay_buffer e ! ((idx # idxs) ! k)))
                   (spec_action_index (replay_buffer e ! ((idx # idxs) ! k)))) = Inr (?qs ! Suc k)"
    proof (cases k)
      case 0
      then show ?thesis using c n tr q0 by simp
    next
      case (Suc j)
      then have "j < length idxs" using k by simp
      then show ?thesis using steps Suc by simp
    qed
  qed
  have lp: "trainOnBatch_loop (idx # idxs) e =
              (Inr (), e\<lparr>q_network := Some (?qs ! length (idx # idxs))\<rparr>)"
    using b loop by simp
  show ?case using a b0 st lp by (intro exI [of _ ?qs]) blast
qed

lemma learn_epsilon_exact:
  "epsilon (snd (learn raws e)) =
     (if batch_size e \<le> length (replay_buffer e) \<and> fst (learn raws e) = Inr () \<and>
         dless (epsilon_min e) (epsilon e)
      then dmult (epsilon e) (epsilon_decay e) else epsilon e)"
  by (simp add: learn_cases split: sum.splits)

section \<open>The engine with two actions on non-terminal transitions\<close>

lemma storeExperiences_into_empty:
  assumes "replay_buffer e = []" and "0 < buffer_capacity e" and "length xs \<le> buffer_capacity e"
  shows "storeExperiences xs e = e\<lparr>replay_buffer := xs\<rparr>"
proof -
  have "replay_buffer (storeExperiences xs e) = xs"
    using storeExperiences_buffer [OF assms(2), of xs] assms(1,3) by simp
  then show ?thesis using storeExperiences_frame [of xs e] by simp
qed

lemma refilled_pair_engine_eq:
  "refilled_pair_engine = pair_engine\<lparr>replay_buffer := map nonterminal_at [0..<32]\<rparr>"
  unfolding refilled_pair_engine_def
  by (rule storeExperiences_into_empty)
     (simp_all add: pair_engine_def ReinforcementLearningEngine_ctor_def)

lemma refilled_pair_engine_fields:
  "q_network refilled_pair_engine = Some (pair_network 1)"
  "target_network refilled_pair_engine = Some (QNetwork_ctor 1 1 2 0.001 stairs stairs)"
  "replay_buffer refilled_pair_engine = map nonterminal_at [0..<32]"
  "batch_size refilled_pair_engine = 32"
  "gamma refilled_pair_engine = 0.99"
  unfolding refilled_pair_engine_eq
  by (simp_all add: pair_engine_def ReinforcementLearningEngine_ctor_def QNetwork_ctor_def
        pair_network_def ones_def upt_rec)

lemma pair_network_predict: "predict (pair_network w) [1] = Inr [1, w]"
  by (simp add: predict_def forward_def pair_network_def relu_def upt_rec)

lemma pair_target_predict: "predict (QNetwork_ctor 1 1 2 0.001 stairs stairs) [1] = Inr [1, 2]"
  by (simp add: predict_def forward_def QNetwork_ctor_def stairs_def relu_def upt_rec)

lemma pair_network_train:
  "train (pair_network w) [1] [1, v] = Inr (pair_network (w - 0.001 * (w - v)))"
  by (simp add: train_def backward_def forward_def pair_network_def relu_def upt_rec)

lemma nonterminal_blend:
  "spec_blended_target [1, w] (spec_target_value g [1, 2] (nonterminal_at ts))
     (spec_action_index (nonterminal_at ts)) = [1, 1 + g * 2]"
  by (simp add: spec_blended_target_def spec_target_value_def spec_action_index_def
        nonterminal_at_def Action_ctor_def upt_rec)

lemma trainable_nonterminal:
  "trainable (pair_network 1) (QNetwork_ctor 1 1 2 0.001 stairs stairs) (nonterminal_at ts)"
  by (simp add: trainable_def nonterminal_at_def State_ctor_def Action_ctor_def
        pair_network_def QNetwork_ctor_def)

lemma sampled_nonterminal:
  assumes "k < 32"
  shows "\<exists>ts. sampled_transition raws refilled_pair_engine k = nonterminal_at ts"
proof -
  have "sampleBatch raws refilled_pair_engine ! k \<in> set (sampleBatch raws refilled_pair_engine)"
    using assms by (intro nth_mem) (simp add: sampleBatch_def refilled_pair_engine_fields)
  then have "sampleBatch raws refilled_pair_engine ! k < length (replay_buffer refilled_pair_engine)"
    by (intro sampleBatch_in_range) (simp_all add: refilled_pair_engine_fields)
  then have "sampleBatch raws refilled_pair_engine ! k < 32"
    by (simp add: refilled_pair_engine_fields)
  then show ?thesis
    unfolding sampled_transition_def refilled_pair_engine_fields(3) by (auto simp del: upt_Suc)
qed

section \<open>The claims\<close>

subsection \<open>C1: learning after an emergency stop\<close>




subsection \<open>C2: synchronising the target network\<close>

text \<open>
  Claim C2 says that whenever the counter \<open>steps_since_update\<close> reaches \<open>update_frequency\<close>
  the weights of the target network become those of the live network and the counter
  returns to \<open>0\<close>. The counter does return to \<open>0\<close>, but \<^verbatim>\<open>updateTargetNetwork\<close> only prints
  a message, although its comment reads \<^verbatim>\<open>Copy weights from main network to target network\<close>.
  Evaluated on \<^verbatim>\<open>ReinforcementLearningEngine(1, 1, 1, 0.001)\<close> after thirty-two
  \<^verbatim>\<open>storeExperience\<close> calls: after \<open>99\<close> calls of \<^verbatim>\<open>learn()\<close> the counter is \<open>99\<close>; after the
  hundredth it is \<open>0\<close>, the target network is still the one the constructor made, and it
  differs from the live network in its weights and in its prediction for the input \<open>[1]\<close>.
\<close>

theorem target_network_never_synced:
  "map_option steps_since_update
     (run (map store_op [0..<32] @ replicate 99 (Learn first_index)) unit_engine) = Some 99 \<and>
   map_option steps_since_update
     (run (map store_op [0..<32] @ replicate 100 (Learn first_index)) unit_engine) = Some 0 \<and>
   map_option q_network
     (run (map store_op [0..<32] @ replicate 100 (Learn first_index)) unit_engine)
       = Some (Some (unit_network (0.998 ^ 3200))) \<and>
   map_option target_network
     (run (map store_op [0..<32] @ replicate 100 (Learn first_index)) unit_engine)
       = Some (Some (QNetwork_ctor 1 1 1 0.001 zeros zeros)) \<and>
   weights (unit_network (0.998 ^ 3200)) \<noteq> weights (QNetwork_ctor 1 1 1 0.001 zeros zeros) \<and>
   predict (unit_network (0.998 ^ 3200)) [1] \<noteq> predict (QNetwork_ctor 1 1 1 0.001 zeros zeros) [1]"
proof -
  have p: "predict (QNetwork_ctor 1 1 1 0.001 zeros zeros) [1] = Inr [0]"
    by (simp add: predict_def forward_def QNetwork_ctor_def zeros_def relu_def)
  have w: "weights (unit_network (0.998 ^ 3200)) \<noteq> weights (QNetwork_ctor 1 1 1 0.001 zeros zeros)"
    by (simp add: unit_network_def QNetwork_ctor_def zeros_def)
  have nz: "(0.998::real) ^ 3200 \<noteq> 0" by (simp only: power_eq_0_iff) simp
  have q: "predict (unit_network (0.998 ^ 3200)) [1] \<noteq> predict (QNetwork_ctor 1 1 1 0.001 zeros zeros) [1]"
    unfolding unit_network_predict p using nz by simp
  have s99: "map_option steps_since_update
     (run (map store_op [0..<32] @ replicate 99 (Learn first_index)) unit_engine) = Some 99"
    unfolding run_refill_then run_learns_refilled by simp
  have s100: "map_option steps_since_update
     (run (map store_op [0..<32] @ replicate 100 (Learn first_index)) unit_engine) = Some 0"
    unfolding run_refill_then run_learns_refilled by simp
  have q100: "map_option q_network
     (run (map store_op [0..<32] @ replicate 100 (Learn first_index)) unit_engine)
       = Some (Some (unit_network (0.998 ^ 3200)))"
    unfolding run_refill_then run_learns_refilled by simp
  have t100: "map_option target_network
     (run (map store_op [0..<32] @ replicate 100 (Learn first_index)) unit_engine)
       = Some (Some (QNetwork_ctor 1 1 1 0.001 zeros zeros))"
    unfolding run_refill_then run_learns_refilled by (simp add: refilled_unit_engine_fields)
  show ?thesis using s99 s100 q100 t100 w q by blast
qed

subsection \<open>C3: the replay buffer is bounded and first-in first-out\<close>

text \<open>
  Claim C3. From an engine whose buffer holds at most \<open>buffer_capacity\<close> transitions (the
  capacity being positive, as the constructor's \<open>10000\<close> is), any sequence of
  \<^verbatim>\<open>storeExperience\<close> calls leaves at most \<open>buffer_capacity\<close> transitions in the buffer; and
  after storing \<open>buffer_capacity + k\<close> transitions the buffer holds exactly the last
  \<open>buffer_capacity\<close> of them, in the order in which they were stored.
\<close>

theorem replay_buffer_bounded_fifo:
  assumes "0 < buffer_capacity e" and "length (replay_buffer e) \<le> buffer_capacity e"
  shows "length (replay_buffer (storeExperiences xs e)) \<le> buffer_capacity e \<and>
         (length xs = buffer_capacity e + k \<longrightarrow>
            replay_buffer (storeExperiences xs e) = drop k xs \<and>
            length (replay_buffer (storeExperiences xs e)) = buffer_capacity e)"
  using assms by (auto simp: storeExperiences_buffer [OF assms])

text \<open>
  An instance: \<open>10003\<close> transitions stored into the constructor's empty buffer of capacity
  \<open>10000\<close>; the three oldest are gone.
\<close>

theorem replay_buffer_bounded_fifo_witness:
  "0 < buffer_capacity unit_engine \<and>
   length (replay_buffer unit_engine) \<le> buffer_capacity unit_engine \<and>
   length (map transition_at [0..<10003]) = buffer_capacity unit_engine + 3 \<and>
   length (replay_buffer (storeExperiences (map transition_at [0..<10003]) unit_engine))
     \<le> buffer_capacity unit_engine \<and>
   replay_buffer (storeExperiences (map transition_at [0..<10003]) unit_engine)
     = map transition_at [3..<10003]"
proof -
  have c: "0 < buffer_capacity unit_engine" by (simp add: unit_engine_fields)
  have l: "length (replay_buffer unit_engine) \<le> buffer_capacity unit_engine"
    by (simp add: unit_engine_fields)
  have n: "length (map transition_at [0..<10003]) = buffer_capacity unit_engine + 3"
    by (simp only: length_map length_upt unit_engine_fields)
  have d: "drop 3 (map transition_at [0..<10003]) = map transition_at [3..<10003]"
    by (simp only: drop_map drop_upt add_0)
  note t = replay_buffer_bounded_fifo [OF c l, of "map transition_at [0..<10003]" 3]
  have b: "length (replay_buffer (storeExperiences (map transition_at [0..<10003]) unit_engine))
             \<le> buffer_capacity unit_engine"
    using t by (rule conjunct1)
  have f: "replay_buffer (storeExperiences (map transition_at [0..<10003]) unit_engine)
             = map transition_at [3..<10003]"
    using t n unfolding d [symmetric] by blast
  show ?thesis using c l n b f by blast
qed

subsection \<open>C4: the floor of the exploration rate\<close>

text \<open>
  Claim C4 says that the exploration rate never falls strictly below \<open>epsilon_min\<close>. The
  guard \<^verbatim>\<open>if (epsilon_ > epsilon_min_)\<close> of \<^verbatim>\<open>learn\<close> is tested before the multiplication and
  the product is not compared with the floor again, so the last decay overshoots it.
  Evaluated on \<^verbatim>\<open>ReinforcementLearningEngine(1, 1, 1, 0.001)\<close> with the constructor's
  \<open>epsilon = 1\<close>, \<open>epsilon_decay = 0.995\<close> and \<open>epsilon_min = 0.01\<close>, after thirty-two
  \<^verbatim>\<open>storeExperience\<close> calls: after \<open>919\<close> calls of \<^verbatim>\<open>learn()\<close> the exploration rate is
  \<open>0.995 ^ 919\<close>, which is below \<open>0.01\<close>.
\<close>

theorem epsilon_below_floor_after_919_learns:
  "map_option epsilon_min
     (run (map store_op [0..<32] @ replicate 919 (Learn first_index)) unit_engine)
       = Some (Finite 0.01) \<and>
   map_option epsilon
     (run (map store_op [0..<32] @ replicate 919 (Learn first_index)) unit_engine)
       = Some (Finite (0.995 ^ 919)) \<and>
   map_option below_floor
     (run (map store_op [0..<32] @ replicate 919 (Learn first_index)) unit_engine) = Some True"
proof -
  have "(decay_step (Finite 0.01) (Finite 0.995) ^^ Suc 918) (Finite 1)
          = Finite (1 * 0.995 ^ Suc 918)"
    using decay_above_floor by (intro decay_step_funpow) simp_all
  then have e: "(decay_step (Finite 0.01) (Finite 0.995) ^^ 919) (Finite 1)
                  = Finite (0.995 ^ 919)" by simp
  have b: "below_floor ((refilled_engine unit_engine)
             \<lparr>q_network := Some (unit_network (0.998 ^ (919 * 32))),
              steps_since_update := 919 mod 100,
              epsilon := Finite (0.995 ^ 919)\<rparr>)"
    unfolding below_floor_def using decay_below_floor
    by (simp add: refilled_unit_engine_fields)
  show ?thesis
    unfolding run_refill_then run_learns_refilled e using b
    by (simp add: refilled_unit_engine_fields)
qed

subsection \<open>C5: the emergency stop\<close>

text \<open>
  Claim C5. Whatever the engine was before, in particular after any sequence of public
  operations, \<^verbatim>\<open>emergencyStop()\<close> leaves the replay buffer empty and the exploration rate
  equal to \<open>1\<close>.
\<close>

theorem emergencyStop_clears:
  "replay_buffer (emergencyStop e) = [] \<and> epsilon (emergencyStop e) = Finite 1"
  by (simp add: emergencyStop_def)

subsection \<open>C6: the training target of a sampled transition\<close>

text \<open>
  Claim C6. Let the buffer hold at least \<open>batch_size\<close> transitions, all of them trainable,
  and let both networks be present. Then \<^verbatim>\<open>learn()\<close> returns normally, and the live network
  it leaves is the last of a chain \<open>qs\<close> of \<open>batch_size + 1\<close> networks that starts with the
  live network before the call. The \<open>k\<close>-th link is the training on the \<open>k\<close>-th sampled
  transition: with \<open>cur\<close> the prediction of the live network \<open>qs ! k\<close> for the
  transition's state and \<open>nxt\<close> the prediction of the target network for its next state,
  \<open>qs ! Suc k\<close> is the result of training \<open>qs ! k\<close> on the features of the state towards the
  vector that equals \<open>cur\<close> except at the transition's action index, where it is the reward
  if the transition is terminal and the reward plus \<open>gamma\<close> times the largest entry of
  \<open>nxt\<close> otherwise.
\<close>

theorem learn_trains_on_blended_targets:
  assumes "q_network e = Some q" and "target_network e = Some t"
    and "batch_size e \<le> length (replay_buffer e)"
    and "list_all (trainable q t) (replay_buffer e)"
  shows "\<exists>qs. length qs = Suc (batch_size e) \<and> qs ! 0 = q \<and>
           (\<forall>k<batch_size e. \<exists>cur nxt.
              predict (qs ! k) (features (state (sampled_transition raws e k))) = Inr cur \<and>
              predict t (features (next_state (sampled_transition raws e k))) = Inr nxt \<and>
              train (qs ! k) (features (state (sampled_transition raws e k)))
                (spec_blended_target cur
                   (spec_target_value (gamma e) nxt (sampled_transition raws e k))
                   (spec_action_index (sampled_transition raws e k))) = Inr (qs ! Suc k)) \<and>
           fst (learn raws e) = Inr () \<and>
           q_network (snd (learn raws e)) = Some (qs ! batch_size e)"
proof -
  have len: "length (sampleBatch raws e) = batch_size e" by (simp add: sampleBatch_def)
  have rng: "\<forall>i\<in>set (sampleBatch raws e). i < length (replay_buffer e)"
  proof
    fix i assume i: "i \<in> set (sampleBatch raws e)"
    then have "0 < batch_size e" using len by (cases "sampleBatch raws e") auto
    then have "replay_buffer e \<noteq> []" using assms(3) by auto
    then show "i < length (replay_buffer e)" using i by (rule sampleBatch_in_range)
  qed
  obtain qs where
    l: "length qs = Suc (length (sampleBatch raws e))" and
    q0: "qs ! 0 = q" and
    st: "\<forall>k<length (sampleBatch raws e). \<exists>cur nxt.
              predict (qs ! k) (features (state (replay_buffer e ! (sampleBatch raws e ! k)))) = Inr cur \<and>
              predict t (features (next_state (replay_buffer e ! (sampleBatch raws e ! k)))) = Inr nxt \<and>
              train (qs ! k) (features (state (replay_buffer e ! (sampleBatch raws e ! k))))
                (spec_blended_target cur
                   (spec_target_value (gamma e) nxt (replay_buffer e ! (sampleBatch raws e ! k)))
                   (spec_action_index (replay_buffer e ! (sampleBatch raws e ! k)))) = Inr (qs ! Suc k)" and
    lp: "trainOnBatch_loop (sampleBatch raws e) e =
           (Inr (), e\<lparr>q_network := Some (qs ! length (sampleBatch raws e))\<rparr>)"
    using trainOnBatch_loop_spec [OF assms(1,2) rng assms(4)] by blast
  have lr: "fst (learn raws e) = Inr () \<and> q_network (snd (learn raws e)) = Some (qs ! batch_size e)"
    using learn_runs_trainOnBatch_loop [OF assms(3), of raws] lp len by simp
  show ?thesis
    using l q0 st lr unfolding len sampled_transition_def by (intro exI [of _ qs]) blast
qed

text \<open>
  An instance with two actions and non-terminal transitions. The target network predicts
  \<open>[1, 2]\<close>, so the target value is \<open>1 + 0.99 * 2 = 2.98\<close>; the live network predicts
  \<open>[1, w]\<close> and is trained towards \<open>[1, 2.98]\<close>: its weight for action \<open>0\<close> stays \<open>1\<close> and
  its weight \<open>w\<close> for action \<open>1\<close> moves by a thousandth of its distance from \<open>2.98\<close> in each
  of the \<open>32\<close> passes.
\<close>

theorem learn_trains_on_blended_targets_witness:
  "q_network refilled_pair_engine = Some (pair_network 1) \<and>
   target_network refilled_pair_engine = Some (QNetwork_ctor 1 1 2 0.001 stairs stairs) \<and>
   batch_size refilled_pair_engine \<le> length (replay_buffer refilled_pair_engine) \<and>
   list_all (trainable (pair_network 1) (QNetwork_ctor 1 1 2 0.001 stairs stairs))
     (replay_buffer refilled_pair_engine) \<and>
   fst (learn first_index refilled_pair_engine) = Inr () \<and>
   q_network (snd (learn first_index refilled_pair_engine))
     = Some (pair_network (2.98 - 1.98 * 0.999 ^ 32))"
proof -
  let ?e = "refilled_pair_engine"
  let ?t = "QNetwork_ctor 1 1 2 0.001 stairs stairs"
  have h3: "batch_size ?e \<le> length (replay_buffer ?e)"
    by (simp add: refilled_pair_engine_fields)
  have h4: "list_all (trainable (pair_network 1) ?t) (replay_buffer ?e)"
    unfolding refilled_pair_engine_fields(3) list_all_iff set_map
    by (blast intro: trainable_nonterminal)
  obtain qs where
    q0: "qs ! 0 = pair_network 1" and
    st: "\<forall>k<batch_size ?e. \<exists>cur nxt.
              predict (qs ! k) (features (state (sampled_transition first_index ?e k))) = Inr cur \<and>
              predict ?t (features (next_state (sampled_transition first_index ?e k))) = Inr nxt \<and>
              train (qs ! k) (features (state (sampled_transition first_index ?e k)))
                (spec_blended_target cur
                   (spec_target_value (gamma ?e) nxt (sampled_transition first_index ?e k))
                   (spec_action_index (sampled_transition first_index ?e k))) = Inr (qs ! Suc k)" and
    f: "fst (learn first_index ?e) = Inr ()" and
    l: "q_network (snd (learn first_index ?e)) = Some (qs ! batch_size ?e)"
    using learn_trains_on_blended_targets [OF refilled_pair_engine_fields(1,2) h3 h4, of first_index]
    by blast
  have step: "qs ! Suc k = pair_network (w - 0.001 * (w - 2.98))"
    if kk: "k < 32" and qk: "qs ! k = pair_network w" for k w
  proof -
    obtain ts where ts: "sampled_transition first_index ?e k = nonterminal_at ts"
      using sampled_nonterminal [OF kk] by blast
    have fs: "features (state (nonterminal_at ts)) = [1]"
             "features (next_state (nonterminal_at ts)) = [1]"
      by (simp_all add: nonterminal_at_def State_ctor_def)
    have "\<exists>cur nxt.
              predict (qs ! k) (features (state (sampled_transition first_index ?e k))) = Inr cur \<and>
              predict ?t (features (next_state (sampled_transition first_index ?e k))) = Inr nxt \<and>
              train (qs ! k) (features (state (sampled_transition first_index ?e k)))
                (spec_blended_target cur
                   (spec_target_value (gamma ?e) nxt (sampled_transition first_index ?e k))
                   (spec_action_index (sampled_transition first_index ?e k))) = Inr (qs ! Suc k)"
      using st kk by (simp add: refilled_pair_engine_fields(4))
    then obtain cur nxt where
      "predict (qs ! k) [1] = Inr cur" "predict ?t [1] = Inr nxt"
      "train (qs ! k) [1]
         (spec_blended_target cur (spec_target_value 0.99 nxt (nonterminal_at ts))
            (spec_action_index (nonterminal_at ts))) = Inr (qs ! Suc k)"
      unfolding refilled_pair_engine_fields(5) ts fs by blast
    then show ?thesis
      unfolding qk pair_network_predict pair_target_predict
      by (auto simp add: nonterminal_blend pair_network_train)
  qed
  have closed: "k \<le> 32 \<Longrightarrow> qs ! k = pair_network (2.98 - 1.98 * 0.999 ^ k)" for k
  proof (induction k)
    case 0
    then show ?case using q0 by simp
  next
    case (Suc k)
    then have "qs ! k = pair_network (2.98 - 1.98 * 0.999 ^ k)" by simp
    then have "qs ! Suc k = pair_network ((2.98 - 1.98 * 0.999 ^ k)
                 - 0.001 * ((2.98 - 1.98 * 0.999 ^ k) - 2.98))"
      using step [of k] Suc.prems by simp
    also have "(2.98 - 1.98 * 0.999 ^ k) - 0.001 * ((2.98 - 1.98 * 0.999 ^ k) - 2.98)
                 = 2.98 - 1.98 * (0.999::real) ^ Suc k"
      by (simp add: algebra_simps)
    finally show ?case .
  qed
  have "q_network (snd (learn first_index ?e)) = Some (pair_network (2.98 - 1.98 * 0.999 ^ 32))"
    using l closed [of 32] by (simp add: refilled_pair_engine_fields)
  then show ?thesis
    using refilled_pair_engine_fields(1,2) h3 h4 f by blast
qed

subsection \<open>C7: the random action\<close>

text \<open>
  Claim C7 says that a random action is drawn from the action set whose size was given to
  the constructor. \<^verbatim>\<open>selectRandomAction\<close> draws from \<open>0..3\<close> whatever that size is, while
  \<^verbatim>\<open>selectBestAction\<close> ranges over the outputs of the network, which are as many as the
  configured actions. Evaluated on the engine of the repository's test fixture,
  \<^verbatim>\<open>ReinforcementLearningEngine(4, 2, 64, 0.01)\<close>, which has two actions: with the exploration
  rate at \<open>1\<close> and the generator output \<open>3\<close>, \<^verbatim>\<open>getAction\<close> returns the action of index \<open>3\<close>.
\<close>

theorem random_action_outside_configured_range:
  "map_option output_size (q_network fixture_engine) = Some 2 \<and>
   epsilon fixture_engine = Finite 1 \<and>
   fst (getAction 0 3 (State_ctor [0.5, 0.3, 0.8, 0.2] ''test_state'') fixture_engine)
     = Inr (Action_ctor ''action_3'' [3])"
  by (simp add: fixture_engine_def ReinforcementLearningEngine_ctor_def QNetwork_ctor_def
        getAction_def selectRandomAction_def uniform_int_distribution_def to_string.simps Let_def)

subsection \<open>C8: the prediction and its one failure\<close>

text \<open>
  Claim C8. For a network of the constructor's shape: when the input has exactly
  \<open>input_size\<close> entries, \<open>predict\<close> returns a vector of \<open>output_size\<close> entries (the
  configured action count); when it has any other length, \<open>predict\<close> throws
  \<^verbatim>\<open>std::invalid_argument("Input size mismatch")\<close>, the dimension mismatch; and \<open>predict\<close>
  fails in no other case.
\<close>

theorem predict_length_or_mismatch:
  assumes "well_formed n"
  shows "(length input = input_size n \<longrightarrow>
            (\<exists>out. predict n input = Inr out \<and> length out = output_size n)) \<and>
         (length input \<noteq> input_size n \<longrightarrow>
            predict n input = Inl (invalid_argument ''Input size mismatch'')) \<and>
         (\<forall>e. predict n input = Inl e \<longrightarrow> length input \<noteq> input_size n)"
  by (simp add: predict_def forward_def Let_def)

theorem predict_length_or_mismatch_witness:
  "well_formed (QNetwork_ctor 2 1 2 0.001 ones ones) \<and>
   length [1, 2 :: real] = input_size (QNetwork_ctor 2 1 2 0.001 ones ones) \<and>
   (\<exists>out. predict (QNetwork_ctor 2 1 2 0.001 ones ones) [1, 2] = Inr out \<and>
          length out = output_size (QNetwork_ctor 2 1 2 0.001 ones ones)) \<and>
   length [1 :: real] \<noteq> input_size (QNetwork_ctor 2 1 2 0.001 ones ones) \<and>
   predict (QNetwork_ctor 2 1 2 0.001 ones ones) [1] =
     Inl (invalid_argument ''Input size mismatch'')"
proof -
  let ?n = "QNetwork_ctor 2 1 2 0.001 ones ones"
  have wf: "well_formed ?n" by (rule well_formed_QNetwork_ctor)
  have sz: "input_size ?n = 2" by (simp add: QNetwork_ctor_def)
  show ?thesis
    using wf sz predict_length_or_mismatch [OF wf, of "[1, 2]"]
      predict_length_or_mismatch [OF wf, of "[1]"]
    by simp
qed

subsection \<open>C9: learning without a full batch\<close>

text \<open>
  Claim C9. When the replay buffer holds fewer transitions than \<open>batch_size\<close>, \<^verbatim>\<open>learn()\<close>
  returns normally and the engine is unchanged: both networks, the exploration rate and
  the three counters are as before.
\<close>

theorem learn_insufficient_data:
  assumes "length (replay_buffer e) < batch_size e"
  shows "learn raws e = (Inr (), e)"
  using assms by (simp add: learn_def)

text \<open>An instance: the engine as constructed, with an empty buffer.\<close>

theorem learn_insufficient_data_witness:
  "length (replay_buffer unit_engine) < batch_size unit_engine \<and>
   learn first_index unit_engine = (Inr (), unit_engine)"
proof -
  have h: "length (replay_buffer unit_engine) < batch_size unit_engine"
    by (simp add: unit_engine_fields)
  show ?thesis using h learn_insufficient_data [OF h, of first_index] by simp
qed

subsection \<open>C10: the exploration rate stays in the unit interval\<close>

text \<open>
  Claim C10 says that \<^verbatim>\<open>setExplorationRate\<close> clamps any argument into \<open>[0, 1]\<close>. Both
  comparisons of \<^verbatim>\<open>std::clamp\<close> are false for NaN, so NaN is stored as it is: on the engine
  of the test fixture, \<^verbatim>\<open>setExplorationRate(NaN)\<close> leaves an exploration rate that is not in
  \<open>[0, 1]\<close>.
\<close>

theorem setExplorationRate_NaN_counterexample:
  "run [SetExplorationRate NaN] fixture_engine = Some (setExplorationRate NaN fixture_engine) \<and>
   epsilon (setExplorationRate NaN fixture_engine) = NaN \<and>
   \<not> in_unit_interval (epsilon (setExplorationRate NaN fixture_engine))"
  by (simp add: setExplorationRate_def clamp_NaN)

text \<open>
  Claim C10, as amended. \<^verbatim>\<open>setExplorationRate\<close> stores the clamped argument for every
  argument other than NaN: \<open>max 0 (min 1 x)\<close> for a finite \<open>x\<close> (so \<open>0\<close> for a negative \<open>x\<close>
  and \<open>1\<close> for an \<open>x\<close> above \<open>1\<close>), \<open>1\<close> for plus infinity and \<open>0\<close> for minus infinity,
  always a value of \<open>[0, 1]\<close>. \<^verbatim>\<open>emergencyStop\<close> and \<^verbatim>\<open>resetLearning\<close> store exactly \<open>1\<close>.
  \<^verbatim>\<open>learn\<close> multiplies the exploration rate by \<open>epsilon_decay\<close> when it has trained on a
  batch and the rate is above \<open>epsilon_min\<close>, and leaves it alone otherwise. And in every
  engine reached from the constructor by public operations, none of them a
  \<^verbatim>\<open>setExplorationRate(NaN)\<close>, the exploration rate lies in \<open>[0, 1]\<close> and \<open>epsilon_decay\<close> is
  \<open>0.995\<close>.
\<close>

theorem epsilon_in_unit_interval:
  "epsilon (setExplorationRate (Finite x) e) = Finite (max 0 (min 1 x)) \<and>
   epsilon (setExplorationRate PlusInfinity e) = Finite 1 \<and>
   epsilon (setExplorationRate MinusInfinity e) = Finite 0 \<and>
   (v \<noteq> NaN \<longrightarrow> in_unit_interval (epsilon (setExplorationRate v e))) \<and>
   epsilon (emergencyStop e) = Finite 1 \<and> epsilon (resetLearning e) = Finite 1 \<and>
   epsilon (snd (learn raws e)) =
     (if batch_size e \<le> length (replay_buffer e) \<and> fst (learn raws e) = Inr () \<and>
         dless (epsilon_min e) (epsilon e)
      then dmult (epsilon e) (epsilon_decay e) else epsilon e) \<and>
   (run ops (ReinforcementLearningEngine_ctor state_size action_size hidden_sz lr qa qb ta tb)
      = Some e' \<and> rates_not_NaN ops \<longrightarrow>
    in_unit_interval (epsilon e') \<and> epsilon_decay e' = Finite 0.995)"
proof -
  have init: "epsilon_ok (ReinforcementLearningEngine_ctor state_size action_size hidden_sz lr qa qb ta tb)"
    by (simp add: epsilon_ok_def ReinforcementLearningEngine_ctor_def)
  have a: "epsilon (setExplorationRate (Finite x) e) = Finite (max 0 (min 1 x))"
    by (simp add: setExplorationRate_def clamp_Finite)
  have b: "epsilon (setExplorationRate PlusInfinity e) = Finite 1"
          "epsilon (setExplorationRate MinusInfinity e) = Finite 0"
    by (simp_all add: setExplorationRate_def clamp_infinities)
  have c: "v \<noteq> NaN \<longrightarrow> in_unit_interval (epsilon (setExplorationRate v e))"
    by (simp add: setExplorationRate_def clamp_unit)
  have d: "epsilon (emergencyStop e) = Finite 1 \<and> epsilon (resetLearning e) = Finite 1"
    by (simp add: emergencyStop_def resetLearning_def)
  show ?thesis
    using a b c d learn_epsilon_exact [of raws e] run_epsilon_ok [OF _ init]
    unfolding epsilon_ok_def by blast
qed

text \<open>
  An instance: the arguments \<open>7\<close>, \<open>-3\<close> and \<open>0.25\<close> on the engine of the test fixture, and
  the sequence \<^verbatim>\<open>setExplorationRate(7)\<close>, \<^verbatim>\<open>setExplorationRate(0.25)\<close> from the constructor.
\<close>

theorem epsilon_in_unit_interval_witness:
  "epsilon (setExplorationRate (Finite 7) fixture_engine) = Finite 1 \<and>
   epsilon (setExplorationRate (Finite (- 3)) fixture_engine) = Finite 0 \<and>
   epsilon (setExplorationRate (Finite 0.25) fixture_engine) = Finite 0.25 \<and>
   Finite 7 \<noteq> NaN \<and>
   in_unit_interval (epsilon (setExplorationRate (Finite 7) fixture_engine)) \<and>
   run [SetExplorationRate (Finite 7), SetExplorationRate (Finite 0.25)]
       (ReinforcementLearningEngine_ctor 4 2 64 0.01 ones ones zeros zeros)
     = Some (setExplorationRate (Finite 0.25) (setExplorationRate (Finite 7)
               (ReinforcementLearningEngine_ctor 4 2 64 0.01 ones ones zeros zeros))) \<and>
   rates_not_NaN [SetExplorationRate (Finite 7), SetExplorationRate (Finite 0.25)] \<and>
   in_unit_interval (epsilon (setExplorationRate (Finite 0.25) (setExplorationRate (Finite 7)
               (ReinforcementLearningEngine_ctor 4 2 64 0.01 ones ones zeros zeros))))"
proof -
  let ?c = "ReinforcementLearningEngine_ctor 4 2 64 0.01 ones ones zeros zeros"
  let ?ops = "[SetExplorationRate (Finite 7), SetExplorationRate (Finite 0.25)]"
  have r: "run ?ops ?c = Some (setExplorationRate (Finite 0.25) (setExplorationRate (Finite 7) ?c))"
    by simp
  have n: "rates_not_NaN ?ops" by simp
  have 1: "epsilon (setExplorationRate (Finite 7) fixture_engine) = Finite 1"
    using epsilon_in_unit_interval [where x = 7 and e = fixture_engine] by simp
  have 2: "epsilon (setExplorationRate (Finite (- 3)) fixture_engine) = Finite 0"
    using epsilon_in_unit_interval [where x = "- 3" and e = fixture_engine] by simp
  have 3: "epsilon (setExplorationRate (Finite 0.25) fixture_engine) = Finite 0.25"
    using epsilon_in_unit_interval [where x = "0.25" and e = fixture_engine] by simp
  have 4: "in_unit_interval (epsilon (setExplorationRate (Finite 7) fixture_engine))"
    using epsilon_in_unit_interval [where v = "Finite 7" and e = fixture_engine] by simp
  have 5: "in_unit_interval (epsilon (setExplorationRate (Finite 0.25)
             (setExplorationRate (Finite 7) ?c)))"
    using epsilon_in_unit_interval [where ops = ?ops and state_size = 4
          and action_size = 2 and hidden_sz = 64 and lr = "0.01" and qa = ones and qb = ones
          and ta = zeros and tb = zeros and
          e' = "setExplorationRate (Finite 0.25) (setExplorationRate (Finite 7) ?c)"] r n
    by blast
  show ?thesis using 1 2 3 4 5 r n by simp
qed

end
